theory Spec2Isabelle
  imports Complex_Main "HOL-Library.Char_ord" "HOL-Library.List_Lexorder" "HOL-Library.Option_ord"
    "HOL-Library.AList" "HOL-Library.Multiset"
begin

section \<open>Text: Python strings and their built-in operations\<close>

text \<open>
  A Python \<open>str\<close> is a sequence of Unicode code points, and its length and its indices
  count code points: it is modelled as the list of its code points. \<open>code_points\<close>
  reads a literal, each of its characters as one of the code points U+0000..U+00FF.
\<close>

type_synonym str = "nat list"

definition code_points :: "string \<Rightarrow> str" where
  "code_points s = map of_char s"

text \<open>
  \<open>str.lower\<close> follows the Unicode character database, which is no part of the
  sources: the functions that call it take it as the parameter \<open>lower\<close>. It may change
  the length of a text: the capital I with a dot above (U+0130) becomes the two code
  points U+0069 U+0307.

  \<open>lower_basic\<close> is \<open>str.lower\<close> on text made of the code points U+0000..U+00FF and
  U+0130: the ASCII capitals and the Latin-1 capitals (U+00C0..U+00DE without the
  multiplication sign U+00D7) move up by 32, U+0130 becomes two code points, the others
  stay. It stands for \<open>str.lower\<close> where a concrete text of these code points is
  evaluated, and on the strings of the database, which hold no other code point.
\<close>

definition lower_code_point :: "nat \<Rightarrow> nat list" where
  "lower_code_point n =
     (if (65 \<le> n \<and> n \<le> 90) \<or> (192 \<le> n \<and> n \<le> 222 \<and> n \<noteq> 215) then [n + 32]
      else if n = 304 then [105, 775]
      else [n])"

definition lower_basic :: "str \<Rightarrow> str" where
  "lower_basic s = concat (map lower_code_point s)"

text \<open>
  \<open>s.find(sub)\<close>: the lowest index at which \<open>sub\<close> starts in \<open>s\<close>, or \<open>-1\<close>.
\<close>

fun find_from :: "'a list \<Rightarrow> 'a list \<Rightarrow> nat \<Rightarrow> int" where
  "find_from sub [] i = (if sub = [] then int i else - 1)"
| "find_from sub (c # cs) i =
     (if take (length sub) (c # cs) = sub then int i else find_from sub cs (Suc i))"

definition str_find :: "'a list \<Rightarrow> 'a list \<Rightarrow> int" where
  "str_find s sub = find_from sub s 0"

text \<open>
  \<open>xs[i:j]\<close>: a negative index counts from the end, and both indices are clipped to
  the list.
\<close>

definition clip_index :: "nat \<Rightarrow> int \<Rightarrow> nat" where
  "clip_index n i = (if i < 0 then nat (max 0 (int n + i)) else min n (nat i))"

definition slice :: "'a list \<Rightarrow> int \<Rightarrow> int \<Rightarrow> 'a list" where
  "slice xs i j = drop (clip_index (length xs) i) (take (clip_index (length xs) j) xs)"

text \<open>\<open>s.replace(old, new)\<close> for a one-character \<open>old\<close>.\<close>

definition replace_char :: "char \<Rightarrow> string \<Rightarrow> string \<Rightarrow> string" where
  "replace_char old new s = concat (map (\<lambda>c. if c = old then new else [c]) s)"

section \<open>Search snippets\<close>

text \<open>\<open>create_snippet\<close> of \<open>api/search.py\<close>; callers leave \<open>max_length\<close> at its default.\<close>

definition default_max_length :: int where
  "default_max_length = 200"

definition create_snippet :: "(str \<Rightarrow> str) \<Rightarrow> str \<Rightarrow> str \<Rightarrow> int \<Rightarrow> str" where
  "create_snippet lower text query max_length =
     (if text = [] then []
      else
        let lower_text = lower text;
            lower_query = lower query;
            pos = str_find lower_text lower_query
        in if pos = - 1
           then (if int (length text) > max_length
                 then slice text 0 max_length @ code_points ''...'' else text)
           else
             let start = max 0 (pos - 50);
                 end = min (int (length text)) (pos + int (length query) + 150);
                 snippet = slice text start end;
                 snippet = (if start > 0 then code_points ''...'' @ snippet else snippet);
                 snippet = (if end < int (length text) then snippet @ code_points ''...''
                            else snippet)
             in snippet)"

text \<open>\<open>create_snippet\<close> of \<open>views/search.py\<close>, the copy the HTML search page calls.\<close>

definition view_create_snippet :: "(str \<Rightarrow> str) \<Rightarrow> str \<Rightarrow> str \<Rightarrow> int \<Rightarrow> str" where
  "view_create_snippet lower text query max_length =
     (if text = [] then []
      else
        let lower_text = lower text;
            lower_query = lower query;
            pos = str_find lower_text lower_query
        in if pos = - 1
           then (if int (length text) > max_length
                 then slice text 0 max_length @ code_points ''...'' else text)
           else
             let start = max 0 (pos - 50);
                 end = min (int (length text)) (pos + int (length query) + 150);
                 snippet = slice text start end;
                 snippet = (if start > 0 then code_points ''...'' @ snippet else snippet);
                 snippet = (if end < int (length text) then snippet @ code_points ''...''
                            else snippet)
             in snippet)"

text \<open>
  What the snippet rule speaks of. \<open>sub\<close> occurs in \<open>s\<close> at position \<open>p\<close>. The query
  matches the text at position \<open>p\<close>, letter case ignored: the piece of the text that
  starts at \<open>p\<close> and is as long as the query lowers to what the query lowers to. The
  first case-insensitive occurrence is the least such position.
\<close>

definition occurs_at :: "'a list \<Rightarrow> 'a list \<Rightarrow> nat \<Rightarrow> bool" where
  "occurs_at s sub p \<longleftrightarrow> p + length sub \<le> length s \<and> take (length sub) (drop p s) = sub"

definition matches_at :: "(str \<Rightarrow> str) \<Rightarrow> str \<Rightarrow> str \<Rightarrow> nat \<Rightarrow> bool" where
  "matches_at lower text query p \<longleftrightarrow>
     p + length query \<le> length text \<and>
     lower (take (length query) (drop p text)) = lower query"

definition first_occurrence :: "(str \<Rightarrow> str) \<Rightarrow> str \<Rightarrow> str \<Rightarrow> nat \<Rightarrow> bool" where
  "first_occurrence lower text query p \<longleftrightarrow>
     matches_at lower text query p \<and> (\<forall>i<p. \<not> matches_at lower text query i)"

text \<open>
  The window the rule asks for around a first occurrence at \<open>p\<close>: the text from
  \<open>max 0 (p - 50)\<close> (the truncating subtraction of the naturals) to
  \<open>min (length text) (p + length query + 150)\<close>, with an ellipsis in front when it does
  not start at 0 and one behind when it does not reach the end.
\<close>

definition window_around :: "str \<Rightarrow> str \<Rightarrow> nat \<Rightarrow> str" where
  "window_around text query p =
     (if 0 < p - 50 then code_points ''...'' else [])
     @ drop (p - 50) (take (min (length text) (p + length query + 150)) text)
     @ (if min (length text) (p + length query + 150) < length text
        then code_points ''...'' else [])"

section \<open>The log database\<close>

text \<open>
  The database belongs to the external \<open>llm\<close> tool and is only read. A row of
  \<open>responses\<close> is kept with the columns the endpoints read (the fields of
  \<open>ResponseSummary\<close>); a nullable column is an \<open>option\<close>.
\<close>

record response =
  r_id :: string
  r_model :: string
  r_prompt :: "string option"
  r_response :: "string option"
  r_conversation_id :: "string option"
  r_duration_ms :: "int option"
  r_datetime_utc :: "string option"
  r_input_tokens :: "int option"
  r_output_tokens :: "int option"

record conversation =
  c_id :: string
  c_name :: "string option"
  c_model :: "string option"

record tool =
  t_id :: int
  t_name :: string
  t_description :: "string option"
  t_input_schema :: "string option"
  t_plugin :: "string option"

record tool_call =
  tc_id :: int
  tc_response_id :: string
  tc_tool_id :: int
  tc_name :: string
  tc_arguments :: "string option"
  tc_tool_call_id :: "string option"

record tool_result =
  tr_id :: int
  tr_response_id :: string
  tr_tool_id :: int
  tr_name :: string
  tr_output :: "string option"
  tr_exception :: "string option"
  tr_tool_call_id :: "string option"

text \<open>
  A row of \<open>prompt_attachments\<close> links a response to an attachment and carries the
  attachment's place in the prompt. A row of \<open>attachments\<close> stays the dictionary that
  \<open>rows_where\<close> yields, column name to value, since the endpoint edits it by key.
\<close>

record prompt_attachment =
  pa_response_id :: string
  pa_attachment_id :: string
  pa_order :: int

datatype sql_value = Null | Integer int | Text string | Blob "nat list"

type_synonym row_dict = "(string \<times> sql_value) list"

text \<open>
  Every table may be missing: \<open>None\<close> is a table that does not exist, \<open>Some rows\<close>
  one that does, in its stored row order. Of the full-text index \<open>responses_fts\<close> and
  the bookkeeping table \<open>_llm_migrations\<close> only the existence is recorded.
\<close>

record database =
  llm_migrations :: bool
  responses :: "response list option"
  conversations :: "conversation list option"
  tools :: "tool list option"
  tool_calls :: "tool_call list option"
  tool_results :: "tool_result list option"
  prompt_attachments :: "prompt_attachment list option"
  attachments :: "row_dict list option"
  responses_fts :: bool

definition table_names :: "database \<Rightarrow> string list" where
  "table_names db =
     (if llm_migrations db then [''_llm_migrations''] else [])
     @ (if responses db \<noteq> None then [''responses''] else [])
     @ (if conversations db \<noteq> None then [''conversations''] else [])
     @ (if tools db \<noteq> None then [''tools''] else [])
     @ (if tool_calls db \<noteq> None then [''tool_calls''] else [])
     @ (if tool_results db \<noteq> None then [''tool_results''] else [])
     @ (if prompt_attachments db \<noteq> None then [''prompt_attachments''] else [])
     @ (if attachments db \<noteq> None then [''attachments''] else [])
     @ (if responses_fts db then [''responses_fts''] else [])"

text \<open>
  The errors: the two that \<open>database.py\<close> declares, \<open>sqlite3.DatabaseError\<close> and its
  subclass \<open>sqlite3.OperationalError\<close> of the SQLite driver, each with its message, and
  the refusal of a request whose parameters are outside the bounds a route declares.
\<close>

datatype error =
    DatabaseNotFoundError string
  | InvalidDatabaseError string
  | Sqlite3DatabaseError string
  | OperationalError string
  | RequestValidationError

text \<open>
  How the two libraries treat a table that does not exist. A statement run through
  \<open>db.execute\<close> and the \<open>count\<close> property of a table fail with SQLite's
  \<open>OperationalError\<close>; \<open>rows_where\<close> of \<open>sqlite_utils\<close> yields no row.
\<close>

definition execute_on :: "string \<Rightarrow> 'a list option \<Rightarrow> error + 'a list" where
  "execute_on name table =
     (case table of
        None \<Rightarrow> Inl (OperationalError (''no such table: '' @ name))
      | Some rows \<Rightarrow> Inr rows)"

definition rows_where_on :: "'a list option \<Rightarrow> 'a list" where
  "rows_where_on table = (case table of None \<Rightarrow> [] | Some rows \<Rightarrow> rows)"

definition bind_result :: "error + 'a \<Rightarrow> ('a \<Rightarrow> error + 'b) \<Rightarrow> error + 'b" where
  "bind_result m f = (case m of Inl e \<Rightarrow> Inl e | Inr x \<Rightarrow> f x)"

text \<open>
  \<open>if v:\<close> on an optional string: \<open>None\<close> and the empty string are both false.
\<close>

definition truthy :: "string option \<Rightarrow> bool" where
  "truthy v = (case v of None \<Rightarrow> False | Some s \<Rightarrow> s \<noteq> [])"

text \<open>\<open>sep.join(parts)\<close>.\<close>

fun join :: "string \<Rightarrow> string list \<Rightarrow> string" where
  "join sep [] = []"
| "join sep [s] = s"
| "join sep (s # t # ts) = s @ sep @ join sep (t # ts)"

section \<open>Filters as SQL text with bound parameters\<close>

text \<open>
  The endpoints assemble a \<open>WHERE\<close> condition from fixed fragments, each comparing one
  column of \<open>responses\<close> with a named parameter, and hand the values over in a separate
  dictionary. A fragment is kept as a \<open>clause\<close>: \<open>clause_sql\<close> is its text and
  \<open>clause_holds\<close> what SQLite decides for a row under the bound parameters. A
  comparison with \<open>NULL\<close> is not true; text compares by code point, as SQLite's
  \<open>BINARY\<close> collation does.
\<close>

datatype clause = Eq string string | Ge string string | Le string string

fun clause_sql :: "clause \<Rightarrow> string" where
  "clause_sql (Eq column name) = column @ '' = :'' @ name"
| "clause_sql (Ge column name) = column @ '' >= :'' @ name"
| "clause_sql (Le column name) = column @ '' <= :'' @ name"

definition column_value :: "string \<Rightarrow> response \<Rightarrow> string option" where
  "column_value column r =
     (if column = ''id'' then Some (r_id r)
      else if column = ''model'' then Some (r_model r)
      else if column = ''prompt'' then r_prompt r
      else if column = ''response'' then r_response r
      else if column = ''conversation_id'' then r_conversation_id r
      else if column = ''datetime_utc'' then r_datetime_utc r
      else None)"

type_synonym params = "(string \<times> string) list"

fun clause_holds :: "params \<Rightarrow> response \<Rightarrow> clause \<Rightarrow> bool" where
  "clause_holds ps r (Eq column name) =
     (case (column_value column r, map_of ps name) of (Some v, Some x) \<Rightarrow> v = x | _ \<Rightarrow> False)"
| "clause_holds ps r (Ge column name) =
     (case (column_value column r, map_of ps name) of (Some v, Some x) \<Rightarrow> x \<le> v | _ \<Rightarrow> False)"
| "clause_holds ps r (Le column name) =
     (case (column_value column r, map_of ps name) of (Some v, Some x) \<Rightarrow> v \<le> x | _ \<Rightarrow> False)"

definition where_holds :: "params \<Rightarrow> clause list \<Rightarrow> response \<Rightarrow> bool" where
  "where_holds ps clauses r = list_all (clause_holds ps r) clauses"

text \<open>
  \<open>ORDER BY datetime_utc DESC\<close>: later timestamps first, \<open>NULL\<close> last (SQLite sorts
  \<open>NULL\<close> below every value). Rows with equal timestamps keep their stored order.
  \<open>LIMIT\<close> and \<open>OFFSET\<close>: a negative limit is no limit, a negative offset is 0.
\<close>

definition order_by_desc :: "('a \<Rightarrow> 'k::linorder) \<Rightarrow> 'a list \<Rightarrow> 'a list" where
  "order_by_desc key rows = rev (sort_key key (rev rows))"

definition limit_offset :: "int \<Rightarrow> int \<Rightarrow> 'a list \<Rightarrow> 'a list" where
  "limit_offset limit offset rows =
     (if limit < 0 then drop (nat offset) rows else take (nat limit) (drop (nat offset) rows))"

section \<open>Listing responses\<close>

record response_list_response =
  rl_items :: "response list"
  rl_total :: nat
  rl_limit :: int
  rl_offset :: int

text \<open>
  The filter part of \<open>list_responses\<close> in \<open>api/responses.py\<close>: one clause and one
  parameter for each filter value that is true as a condition.
\<close>

definition build_where ::
  "string option \<Rightarrow> string option \<Rightarrow> string option \<Rightarrow> string option \<Rightarrow> clause list \<times> params"
where
  "build_where model conversation_id start_date end_date =
     (let where_clauses = [];
          params = [];
          (where_clauses, params) =
            (case model of
               Some v \<Rightarrow> if v \<noteq> [] then (where_clauses @ [Eq ''model'' ''model''],
                                        AList.update ''model'' v params)
                         else (where_clauses, params)
             | None \<Rightarrow> (where_clauses, params));
          (where_clauses, params) =
            (case conversation_id of
               Some v \<Rightarrow> if v \<noteq> [] then (where_clauses @ [Eq ''conversation_id'' ''conversation_id''],
                                        AList.update ''conversation_id'' v params)
                         else (where_clauses, params)
             | None \<Rightarrow> (where_clauses, params));
          (where_clauses, params) =
            (case start_date of
               Some v \<Rightarrow> if v \<noteq> [] then (where_clauses @ [Ge ''datetime_utc'' ''start_date''],
                                        AList.update ''start_date'' v params)
                         else (where_clauses, params)
             | None \<Rightarrow> (where_clauses, params));
          (where_clauses, params) =
            (case end_date of
               Some v \<Rightarrow> if v \<noteq> [] then (where_clauses @ [Le ''datetime_utc'' ''end_date''],
                                        AList.update ''end_date'' v params)
                         else (where_clauses, params)
             | None \<Rightarrow> (where_clauses, params))
      in (where_clauses, params))"

definition where_text :: "clause list \<Rightarrow> string option" where
  "where_text where_clauses =
     (if where_clauses \<noteq> [] then Some (join '' AND '' (map clause_sql where_clauses)) else None)"

text \<open>The text of the count statement, for a condition \<open>where\<close>.\<close>

definition count_query :: "string \<Rightarrow> string" where
  "count_query where = ''SELECT COUNT('' @ ''*) FROM responses WHERE '' @ where"

text \<open>
  \<open>list_responses\<close>. The bounds of \<open>limit\<close> and \<open>offset\<close> are the ones the route
  declares; a request outside them is refused before the function body runs.
\<close>

definition list_responses ::
  "database \<Rightarrow> int \<Rightarrow> int \<Rightarrow> string option \<Rightarrow> string option \<Rightarrow> string option \<Rightarrow> string option
     \<Rightarrow> error + response_list_response"
where
  "list_responses db limit offset model conversation_id start_date end_date =
     (if limit < 1 \<or> 500 < limit \<or> offset < 0 then Inl RequestValidationError
      else if ''responses'' \<notin> set (table_names db)
      then Inr \<lparr>rl_items = [], rl_total = 0, rl_limit = limit, rl_offset = offset\<rparr>
      else
        let (where_clauses, params) = build_where model conversation_id start_date end_date;
            where = where_text where_clauses
        in bind_result
             (if truthy where
              then bind_result (execute_on ''responses'' (responses db))
                     (\<lambda>rows. Inr (length (filter (where_holds params where_clauses) rows)))
              else bind_result (execute_on ''responses'' (responses db))
                     (\<lambda>rows. Inr (length rows)))
             (\<lambda>total.
                let rows = limit_offset limit offset
                             (order_by_desc r_datetime_utc
                               (filter (where_holds params where_clauses)
                                 (rows_where_on (responses db))));
                    items = rows
                in Inr \<lparr>rl_items = items, rl_total = total, rl_limit = limit, rl_offset = offset\<rparr>))"

text \<open>
  The filter as the four settings name it: a supplied value constrains its column,
  the dates as inclusive bounds. \<open>matches_filter\<close> takes every supplied value as a
  constraint; \<open>applied_filter\<close> leaves out a value that is the empty string.
\<close>

definition matches_filter ::
  "string option \<Rightarrow> string option \<Rightarrow> string option \<Rightarrow> string option \<Rightarrow> response \<Rightarrow> bool"
where
  "matches_filter model conversation_id start_date end_date r \<longleftrightarrow>
     (case model of None \<Rightarrow> True | Some v \<Rightarrow> r_model r = v) \<and>
     (case conversation_id of None \<Rightarrow> True | Some v \<Rightarrow> r_conversation_id r = Some v) \<and>
     (case start_date of None \<Rightarrow> True
      | Some v \<Rightarrow> (case r_datetime_utc r of None \<Rightarrow> False | Some d \<Rightarrow> v \<le> d)) \<and>
     (case end_date of None \<Rightarrow> True
      | Some v \<Rightarrow> (case r_datetime_utc r of None \<Rightarrow> False | Some d \<Rightarrow> d \<le> v))"

definition supplied :: "string option \<Rightarrow> string option" where
  "supplied v = (if truthy v then v else None)"

definition applied_filter ::
  "string option \<Rightarrow> string option \<Rightarrow> string option \<Rightarrow> string option \<Rightarrow> response \<Rightarrow> bool"
where
  "applied_filter model conversation_id start_date end_date =
     matches_filter (supplied model) (supplied conversation_id)
       (supplied start_date) (supplied end_date)"

section \<open>Validating the database file\<close>

text \<open>
  What may exist at a path: a file that SQLite reads as a database (an empty file is
  the database without tables), a file that is no database, or a directory. The file
  system gives what exists at a path, \<open>None\<close> where nothing does.

  \<open>sqlite_utils.Database(path)\<close> followed by \<open>table_names()\<close> gives the table names of a
  database. On a file that is no database the driver raises \<open>sqlite3.DatabaseError\<close>
  (file is not a database), on a directory \<open>sqlite3.OperationalError\<close> (unable to open
  database file).
\<close>

datatype entry = SqliteFile database | OtherFile | Directory

type_synonym file_system = "string \<Rightarrow> entry option"

definition open_table_names :: "entry \<Rightarrow> error + string list" where
  "open_table_names f =
     (case f of
        SqliteFile db \<Rightarrow> Inr (table_names db)
      | OtherFile \<Rightarrow> Inl (Sqlite3DatabaseError ''file is not a database'')
      | Directory \<Rightarrow> Inl (OperationalError ''unable to open database file''))"

text \<open>\<open>Database.validate\<close> of \<open>database.py\<close>.\<close>

definition validate :: "file_system \<Rightarrow> string \<Rightarrow> error + unit" where
  "validate fs db_path =
     (case fs db_path of
        None \<Rightarrow> Inl (DatabaseNotFoundError db_path)
      | Some f \<Rightarrow>
          bind_result (open_table_names f)
            (\<lambda>names.
               if ''_llm_migrations'' \<notin> set names
               then Inl (InvalidDatabaseError db_path)
               else Inr ()))"

section \<open>Attachments of a response\<close>

text \<open>
  \<open>get_response_attachments\<close> of \<open>api/responses.py\<close>. A row dictionary is an
  association list: \<open>pop\<close> deletes a key, an assignment replaces the value in place or
  appends the key, as a Python \<open>dict\<close> does. \<open>sorted\<close> is stable.
\<close>

definition order_key :: "row_dict \<Rightarrow> int" where
  "order_key x = (case map_of x ''order'' of Some (Integer n) \<Rightarrow> n | _ \<Rightarrow> 0)"

definition get_response_attachments :: "database \<Rightarrow> string \<Rightarrow> row_dict list" where
  "get_response_attachments db response_id =
     (if ''prompt_attachments'' \<notin> set (table_names db) then []
      else
        let attachment_links =
              filter (\<lambda>link. pa_response_id link = response_id)
                (rows_where_on (prompt_attachments db))
        in if attachment_links = [] then []
           else
             let attachments =
                   concat (map
                     (\<lambda>link.
                        case filter (\<lambda>a. map_of a ''id'' = Some (Text (pa_attachment_id link)))
                               (rows_where_on (attachments db)) of
                          [] \<Rightarrow> []
                        | row # _ \<Rightarrow>
                            let att = row;
                                att = AList.delete ''content'' att;
                                att = AList.update ''order'' (Integer (pa_order link)) att
                            in [att])
                     attachment_links)
             in sort_key order_key attachments)"

text \<open>
  Two states of the \<open>attachments\<close> table that differ in nothing but the stored
  content: both missing, or row by row equal once the \<open>content\<close> column is removed.
\<close>

definition same_but_content :: "row_dict list option \<Rightarrow> row_dict list option \<Rightarrow> bool" where
  "same_but_content stored stored' \<longleftrightarrow>
     rel_option
       (list_all2 (\<lambda>a b. AList.delete ''content'' a = AList.delete ''content'' b))
       stored stored'"

section \<open>Metrics\<close>

text \<open>
  SQL aggregates over a column with \<open>NULL\<close>s: \<open>SUM\<close> and \<open>AVG\<close> skip \<open>NULL\<close> and are
  \<open>NULL\<close> themselves when nothing is left, \<open>COALESCE(x, d)\<close> replaces \<open>NULL\<close> by \<open>d\<close>,
  \<open>COUNT(DISTINCT x)\<close> counts the different values. \<open>AVG\<close> is the exact quotient here.
\<close>

definition non_null :: "'a option list \<Rightarrow> 'a list" where
  "non_null vs = List.map_filter (\<lambda>v. v) vs"

definition sql_sum :: "int option list \<Rightarrow> int option" where
  "sql_sum vs = (if non_null vs = [] then None else Some (sum_list (non_null vs)))"

definition sql_avg :: "int option list \<Rightarrow> real option" where
  "sql_avg vs =
     (if non_null vs = [] then None
      else Some (real_of_int (sum_list (non_null vs)) / real (length (non_null vs))))"

definition coalesce :: "'a option \<Rightarrow> 'a \<Rightarrow> 'a" where
  "coalesce v d = (case v of None \<Rightarrow> d | Some x \<Rightarrow> x)"

definition count_distinct :: "'a list \<Rightarrow> nat" where
  "count_distinct vs = length (remdups vs)"

text \<open>
  The date filter that every function of \<open>api/metrics.py\<close> builds: the text appended
  to the statement's \<open>WHERE\<close> condition, and the bound parameters.
\<close>

definition build_date_filter :: "string option \<Rightarrow> string option \<Rightarrow> clause list \<times> params" where
  "build_date_filter start_date end_date =
     (let date_filter = [];
          params = [];
          (date_filter, params) =
            (case start_date of
               Some v \<Rightarrow> if v \<noteq> [] then (date_filter @ [Ge ''datetime_utc'' ''start_date''],
                                        AList.update ''start_date'' v params)
                         else (date_filter, params)
             | None \<Rightarrow> (date_filter, params));
          (date_filter, params) =
            (case end_date of
               Some v \<Rightarrow> if v \<noteq> [] then (date_filter @ [Le ''datetime_utc'' ''end_date''],
                                        AList.update ''end_date'' v params)
                         else (date_filter, params)
             | None \<Rightarrow> (date_filter, params))
      in (date_filter, params))"

definition date_filter_text :: "clause list \<Rightarrow> string" where
  "date_filter_text date_filter = concat (map (\<lambda>c. '' AND '' @ clause_sql c) date_filter)"

record metrics_summary =
  total_responses :: nat
  total_conversations :: nat
  total_input_tokens :: int
  total_output_tokens :: int
  total_tokens :: int
  avg_duration_ms :: "real option"
  avg_input_tokens :: "real option"
  avg_output_tokens :: "real option"
  total_tool_calls :: nat
  total_tool_errors :: nat
  unique_models :: nat

text \<open>\<open>MetricsSummary()\<close>: every field at its default.\<close>

definition MetricsSummary :: metrics_summary where
  "MetricsSummary =
     \<lparr>total_responses = 0, total_conversations = 0, total_input_tokens = 0,
      total_output_tokens = 0, total_tokens = 0, avg_duration_ms = None,
      avg_input_tokens = None, avg_output_tokens = None, total_tool_calls = 0,
      total_tool_errors = 0, unique_models = 0\<rparr>"

text \<open>\<open>get_metrics_summary\<close>.\<close>

definition get_metrics_summary :: "database \<Rightarrow> string option \<Rightarrow> string option \<Rightarrow> metrics_summary" where
  "get_metrics_summary db start_date end_date =
     (if ''responses'' \<notin> set (table_names db) then MetricsSummary
      else
        let (date_filter, params) = build_date_filter start_date end_date;
            row = filter (where_holds params date_filter) (rows_where_on (responses db));
            total_responses = length row;
            total_input_tokens = coalesce (sql_sum (map r_input_tokens row)) 0;
            total_output_tokens = coalesce (sql_sum (map r_output_tokens row)) 0;
            avg_duration_ms = sql_avg (map r_duration_ms row);
            avg_input_tokens = sql_avg (map r_input_tokens row);
            avg_output_tokens = sql_avg (map r_output_tokens row);
            unique_models = count_distinct (map r_model row);
            total_conversations = 0;
            total_conversations =
              (if ''conversations'' \<in> set (table_names db)
               then length (rows_where_on (conversations db)) else total_conversations);
            total_tool_calls = 0;
            total_tool_errors = 0;
            total_tool_calls =
              (if ''tool_calls'' \<in> set (table_names db)
               then length (rows_where_on (tool_calls db)) else total_tool_calls);
            total_tool_errors =
              (if ''tool_results'' \<in> set (table_names db)
               then length (filter (\<lambda>t. tr_exception t \<noteq> None) (rows_where_on (tool_results db)))
               else total_tool_errors)
        in \<lparr>total_responses = total_responses,
            total_conversations = total_conversations,
            total_input_tokens = total_input_tokens,
            total_output_tokens = total_output_tokens,
            total_tokens = total_input_tokens + total_output_tokens,
            avg_duration_ms = avg_duration_ms,
            avg_input_tokens = avg_input_tokens,
            avg_output_tokens = avg_output_tokens,
            total_tool_calls = total_tool_calls,
            total_tool_errors = total_tool_errors,
            unique_models = unique_models\<rparr>)"

text \<open>
  \<open>get_model_usage\<close>: one group for each model, the groups with more responses first,
  cut at \<open>limit\<close> (1 to 100). \<open>GROUP BY\<close> yields the groups in the order of their key.
\<close>

record model_usage =
  mu_model :: string
  mu_response_count :: nat
  mu_input_tokens :: int
  mu_output_tokens :: int
  mu_avg_duration_ms :: "real option"

definition get_model_usage ::
  "database \<Rightarrow> string option \<Rightarrow> string option \<Rightarrow> int \<Rightarrow> error + model_usage list"
where
  "get_model_usage db start_date end_date limit =
     (if limit < 1 \<or> 100 < limit then Inl RequestValidationError
      else if ''responses'' \<notin> set (table_names db) then Inr []
      else
        let (date_filter, params) = build_date_filter start_date end_date;
            selected = filter (where_holds params date_filter) (rows_where_on (responses db));
            groups = map (\<lambda>m. (m, filter (\<lambda>r. r_model r = m) selected))
                       (sort (remdups (map r_model selected)));
            rows = limit_offset limit 0
                     (order_by_desc mu_response_count
                       (map (\<lambda>(m, g).
                               \<lparr>mu_model = m,
                                mu_response_count = length g,
                                mu_input_tokens = coalesce (sql_sum (map r_input_tokens g)) 0,
                                mu_output_tokens = coalesce (sql_sum (map r_output_tokens g)) 0,
                                mu_avg_duration_ms = sql_avg (map r_duration_ms g)\<rparr>)
                          groups))
        in Inr rows)"

text \<open>
  The two time series. \<open>strftime\<close> is SQLite's function, taken as a parameter: from a
  format and a stored timestamp it gives the bucket key, or \<open>NULL\<close> for a timestamp it
  cannot read. The granularity is one of the four words the route admits.
\<close>

record time_series_point =
  tsp_date :: string
  tsp_value :: int

definition date_formats :: "string \<Rightarrow> string option" where
  "date_formats granularity =
     map_of [(''hour'', ''%Y-%m-%d %H:00''), (''day'', ''%Y-%m-%d''),
             (''week'', ''%Y-%W''), (''month'', ''%Y-%m'')] granularity"

definition time_series ::
  "(string \<Rightarrow> string \<Rightarrow> string option) \<Rightarrow> (response list \<Rightarrow> int) \<Rightarrow> database
     \<Rightarrow> string option \<Rightarrow> string option \<Rightarrow> string \<Rightarrow> error + time_series_point list"
where
  "time_series strftime aggregate db start_date end_date granularity =
     (case date_formats granularity of
        None \<Rightarrow> Inl RequestValidationError
      | Some date_format \<Rightarrow>
          if ''responses'' \<notin> set (table_names db) then Inr []
          else
            let (date_filter, params) = build_date_filter start_date end_date;
                selected = filter (\<lambda>r. r_datetime_utc r \<noteq> None \<and> where_holds params date_filter r)
                             (rows_where_on (responses db));
                date = (\<lambda>r. case r_datetime_utc r of None \<Rightarrow> None
                               | Some d \<Rightarrow> strftime date_format d);
                rows = map (\<lambda>k. (k, aggregate (filter (\<lambda>r. date r = k) selected)))
                         (sort (remdups (map date selected)))
            in Inr (concat (map (\<lambda>(k, v). case k of
                                    None \<Rightarrow> []
                                  | Some d \<Rightarrow> if d \<noteq> [] then [\<lparr>tsp_date = d, tsp_value = v\<rparr>] else [])
                           rows)))"

definition get_token_usage_over_time ::
  "(string \<Rightarrow> string \<Rightarrow> string option) \<Rightarrow> database
     \<Rightarrow> string option \<Rightarrow> string option \<Rightarrow> string \<Rightarrow> error + time_series_point list"
where
  "get_token_usage_over_time strftime =
     time_series strftime
       (\<lambda>g. coalesce (sql_sum (map r_input_tokens g)) 0
            + coalesce (sql_sum (map r_output_tokens g)) 0)"

definition get_responses_over_time ::
  "(string \<Rightarrow> string \<Rightarrow> string option) \<Rightarrow> database
     \<Rightarrow> string option \<Rightarrow> string option \<Rightarrow> string \<Rightarrow> error + time_series_point list"
where
  "get_responses_over_time strftime = time_series strftime (\<lambda>g. int (length g))"

text \<open>
  \<open>get_latency_distribution\<close>: one count for each entry of the fixed bucket list, an
  upper bound \<open>None\<close> standing for no bound at all.
\<close>

record latency_bucket =
  lb_range :: string
  lb_count :: nat

definition buckets :: "(int \<times> int option \<times> string) list" where
  "buckets =
     [(0, Some 100, ''0-100ms''),
      (100, Some 500, ''100-500ms''),
      (500, Some 1000, ''500ms-1s''),
      (1000, Some 2000, ''1-2s''),
      (2000, Some 5000, ''2-5s''),
      (5000, Some 10000, ''5-10s''),
      (10000, Some 30000, ''10-30s''),
      (30000, Some 60000, ''30-60s''),
      (60000, None, ''60s+'')]"

definition bucket_filter :: "int \<Rightarrow> int option \<Rightarrow> int \<Rightarrow> bool" where
  "bucket_filter low high duration_ms =
     (case high of
        None \<Rightarrow> duration_ms \<ge> low
      | Some h \<Rightarrow> duration_ms \<ge> low \<and> duration_ms < h)"

definition get_latency_distribution ::
  "database \<Rightarrow> string option \<Rightarrow> string option \<Rightarrow> latency_bucket list"
where
  "get_latency_distribution db start_date end_date =
     (if ''responses'' \<notin> set (table_names db) then []
      else
        let (date_filter, params) = build_date_filter start_date end_date;
            results =
              map (\<lambda>(low, high, label).
                     let count = length (filter
                           (\<lambda>r. (case r_duration_ms r of
                                    None \<Rightarrow> False
                                  | Some d \<Rightarrow> bucket_filter low high d)
                                \<and> where_holds params date_filter r)
                           (rows_where_on (responses db)))
                     in \<lparr>lb_range = label, lb_count = count\<rparr>)
                buckets
        in results)"

text \<open>
  The rows of \<open>responses\<close> inside the date bounds, an absent or empty bound being no
  bound, and the database whose \<open>responses\<close> table holds just these rows.
\<close>

definition in_bounds :: "string option \<Rightarrow> string option \<Rightarrow> response \<Rightarrow> bool" where
  "in_bounds start_date end_date = applied_filter None None start_date end_date"

definition within_bounds :: "string option \<Rightarrow> string option \<Rightarrow> database \<Rightarrow> database" where
  "within_bounds start_date end_date db =
     db\<lparr>responses := map_option (filter (in_bounds start_date end_date)) (responses db)\<rparr>"

text \<open>
  The number of rows inside the date bounds whose duration is not \<open>NULL\<close> and lies in
  the range from \<open>low\<close> (inclusive) to \<open>high\<close> (exclusive, \<open>None\<close> for no upper bound).
\<close>

definition count_in ::
  "string option \<Rightarrow> string option \<Rightarrow> int \<Rightarrow> int option \<Rightarrow> response list \<Rightarrow> nat"
where
  "count_in start_date end_date low high rows =
     length (filter
       (\<lambda>r. in_bounds start_date end_date r \<and>
            (case r_duration_ms r of
               None \<Rightarrow> False
             | Some d \<Rightarrow> low \<le> d \<and> (case high of None \<Rightarrow> True | Some h \<Rightarrow> d < h)))
       rows)"

section \<open>Search\<close>

text \<open>
  SQLite's \<open>LIKE\<close> with an \<open>ESCAPE\<close> character: \<open>%\<close> stands for any run of characters,
  \<open>_\<close> for any one character, and the escape character makes the pattern character
  after it stand for itself. Characters are compared without regard to case where
  both are ASCII. A pattern that ends in the escape character matches nothing. \<open>NULL\<close>
  is not \<open>LIKE\<close> anything.
\<close>

definition ascii_lower :: "char \<Rightarrow> char" where
  "ascii_lower c =
     (let n = (of_char c :: nat) in if 65 \<le> n \<and> n \<le> 90 then char_of (n + 32) else c)"

definition is_ascii :: "char \<Rightarrow> bool" where
  "is_ascii c \<longleftrightarrow> (of_char c :: nat) < 128"

definition same_nocase :: "char \<Rightarrow> char \<Rightarrow> bool" where
  "same_nocase a b \<longleftrightarrow> a = b \<or> (is_ascii a \<and> is_ascii b \<and> ascii_lower a = ascii_lower b)"

fun like_match :: "char \<Rightarrow> string \<Rightarrow> string \<Rightarrow> bool" where
  "like_match esc [] s = (s = [])"
| "like_match esc (p # ps) s =
     (if p = CHR ''%''
      then like_match esc ps s \<or> (case s of [] \<Rightarrow> False | _ # t \<Rightarrow> like_match esc (p # ps) t)
      else if p = esc
      then (case ps of
              [] \<Rightarrow> False
            | q # qs \<Rightarrow> (case s of [] \<Rightarrow> False | c # t \<Rightarrow> same_nocase q c \<and> like_match esc qs t))
      else if p = CHR ''_''
      then (case s of [] \<Rightarrow> False | _ # t \<Rightarrow> like_match esc ps t)
      else (case s of [] \<Rightarrow> False | c # t \<Rightarrow> same_nocase p c \<and> like_match esc ps t))"

definition backslash :: char where
  "backslash = CHR 0x5C"

definition sql_like :: "string option \<Rightarrow> string \<Rightarrow> bool" where
  "sql_like column pattern =
     (case column of None \<Rightarrow> False | Some s \<Rightarrow> like_match backslash pattern s)"

record search_result =
  res_id :: string
  res_model :: string
  res_prompt :: "string option"
  res_response :: "string option"
  res_datetime_utc :: "string option"
  res_conversation_id :: "string option"
  res_prompt_snippet :: "str option"
  res_response_snippet :: "str option"

record search_response =
  sr_query :: string
  sr_results :: "search_result list"
  sr_total :: nat
  sr_limit :: int
  sr_offset :: int

text \<open>
  The loop that both search functions run over the rows they fetched. The strings of
  the database hold the code points U+0000..U+00FF, on which \<open>str.lower\<close> is
  \<open>lower_basic\<close>.
\<close>

definition SearchResult :: "string \<Rightarrow> response \<Rightarrow> search_result" where
  "SearchResult query row =
     \<lparr>res_id = r_id row,
      res_model = r_model row,
      res_prompt = r_prompt row,
      res_response = r_response row,
      res_datetime_utc = r_datetime_utc row,
      res_conversation_id = r_conversation_id row,
      res_prompt_snippet =
        (if truthy (r_prompt row)
         then map_option (\<lambda>s. create_snippet lower_basic (code_points s) (code_points query)
                           default_max_length) (r_prompt row)
         else None),
      res_response_snippet =
        (if truthy (r_response row)
         then map_option (\<lambda>s. create_snippet lower_basic (code_points s) (code_points query)
                           default_max_length) (r_response row)
         else None)\<rparr>"

text \<open>
  \<open>_search_like\<close> of \<open>api/search.py\<close>. Both statements name the table \<open>responses\<close>
  and carry the pattern as the bound parameter \<open>:pattern\<close>.
\<close>

definition like_pattern_of :: "string \<Rightarrow> string" where
  "like_pattern_of query =
     (let safe_query = replace_char CHR ''_'' [backslash, CHR ''_'']
                         (replace_char CHR ''%'' [backslash, CHR ''%''] query);
          like_pattern = ''%'' @ safe_query @ ''%''
      in like_pattern)"

definition search_like :: "database \<Rightarrow> string \<Rightarrow> int \<Rightarrow> int \<Rightarrow> error + search_response" where
  "search_like db query limit offset =
     (let like_pattern = like_pattern_of query;
          selected = (\<lambda>r. sql_like (r_prompt r) like_pattern \<or> sql_like (r_response r) like_pattern)
      in bind_result (execute_on ''responses'' (responses db))
           (\<lambda>counted.
              let total = length (filter selected counted)
              in bind_result (execute_on ''responses'' (responses db))
                   (\<lambda>stored.
                      let rows = limit_offset limit offset
                                   (order_by_desc r_datetime_utc (filter selected stored));
                          results = map (SearchResult query) rows
                      in Inr \<lparr>sr_query = query, sr_results = results, sr_total = total,
                              sr_limit = limit, sr_offset = offset\<rparr>)))"

text \<open>
  \<open>_search_fts\<close>. The two statements are built by formatting the query, its double
  quotes doubled, into the statement text between \<open>'"\<close> and \<open>"'\<close>. What SQLite makes of
  a statement over the full-text index is not interpreted here: an engine, taken as a
  parameter, answers a statement text (and the bound \<open>limit\<close> and \<open>offset\<close>) with a
  count or with rows, or fails.
\<close>

definition newline :: char where
  "newline = CHR 0x0A"

definition single_quote :: char where
  "single_quote = CHR 0x27"

definition double_quote :: char where
  "double_quote = CHR 0x22"

definition fts_safe_query :: "string \<Rightarrow> string" where
  "fts_safe_query query = replace_char double_quote [double_quote, double_quote] query"

definition fts_count_query :: "string \<Rightarrow> string" where
  "fts_count_query safe_query =
     [newline] @ ''        SELECT COUNT('' @ ''*) FROM responses_fts''
     @ [newline] @ ''        WHERE responses_fts MATCH ''
     @ [single_quote, double_quote] @ safe_query @ [double_quote, single_quote]
     @ [newline] @ ''    ''"

definition fts_search_query :: "string \<Rightarrow> string" where
  "fts_search_query safe_query =
     [newline]
     @ ''        SELECT r.id, r.model, r.prompt, r.response, r.datetime_utc, r.conversation_id''
     @ [newline] @ ''        FROM responses r''
     @ [newline] @ ''        JOIN responses_fts fts ON r.rowid = fts.rowid''
     @ [newline] @ ''        WHERE responses_fts MATCH ''
     @ [single_quote, double_quote] @ safe_query @ [double_quote, single_quote]
     @ [newline] @ ''        ORDER BY r.datetime_utc DESC''
     @ [newline] @ ''        LIMIT :limit OFFSET :offset''
     @ [newline] @ ''    ''"

record fts_engine =
  run_count :: "database \<Rightarrow> string \<Rightarrow> error + nat"
  run_select :: "database \<Rightarrow> string \<Rightarrow> (string \<times> int) list \<Rightarrow> error + response list"

definition search_fts ::
  "fts_engine \<Rightarrow> database \<Rightarrow> string \<Rightarrow> int \<Rightarrow> int \<Rightarrow> error + search_response"
where
  "search_fts engine db query limit offset =
     (let safe_query = fts_safe_query query;
          count_query = fts_count_query safe_query
      in bind_result (run_count engine db count_query)
           (\<lambda>total.
              let search_query = fts_search_query safe_query
              in bind_result
                   (run_select engine db search_query [(''limit'', limit), (''offset'', offset)])
                   (\<lambda>rows.
                      let results = map (SearchResult query) rows
                      in Inr \<lparr>sr_query = query, sr_results = results, sr_total = total,
                              sr_limit = limit, sr_offset = offset\<rparr>)))"

text \<open>
  \<open>search\<close>, the endpoint: the route admits a query of at least one character, a
  limit from 1 to 500 and an offset from 0; any failure of the indexed search falls
  back to the \<open>LIKE\<close> search.
\<close>

definition search ::
  "fts_engine \<Rightarrow> database \<Rightarrow> string \<Rightarrow> int \<Rightarrow> int \<Rightarrow> error + search_response"
where
  "search engine db q limit offset =
     (if length q < 1 \<or> limit < 1 \<or> 500 < limit \<or> offset < 0 then Inl RequestValidationError
      else if ''responses_fts'' \<notin> set (table_names db)
      then search_like db q limit offset
      else (case search_fts engine db q limit offset of
              Inr found \<Rightarrow> Inr found
            | Inl _ \<Rightarrow> search_like db q limit offset))"

text \<open>
  \<open>search_page\<close> of \<open>views/search.py\<close>, the HTML counterpart of \<open>search\<close>, as far as
  the template context goes. It runs the same statements inline, with its own copy of
  the snippet function, and only when there is a query and a \<open>responses\<close> table.
  \<open>attempt\<close> is what the indexed search found, \<open>None\<close> where there is no index or the
  indexed search failed; the \<open>LIKE\<close> search runs in that case.
\<close>

record search_page_context =
  sp_query :: string
  sp_results :: "search_result list"
  sp_total :: nat
  sp_page :: int
  sp_limit :: int
  sp_total_pages :: int

definition view_result :: "string \<Rightarrow> response \<Rightarrow> search_result" where
  "view_result q row =
     \<lparr>res_id = r_id row,
      res_model = r_model row,
      res_prompt = r_prompt row,
      res_response = r_response row,
      res_datetime_utc = r_datetime_utc row,
      res_conversation_id = r_conversation_id row,
      res_prompt_snippet =
        (if truthy (r_prompt row)
         then map_option (\<lambda>s. view_create_snippet lower_basic (code_points s) (code_points q)
                           default_max_length) (r_prompt row)
         else None),
      res_response_snippet =
        (if truthy (r_response row)
         then map_option (\<lambda>s. view_create_snippet lower_basic (code_points s) (code_points q)
                           default_max_length) (r_response row)
         else None)\<rparr>"

definition search_page ::
  "fts_engine \<Rightarrow> database \<Rightarrow> string option \<Rightarrow> int \<Rightarrow> int \<Rightarrow> error + search_page_context"
where
  "search_page engine db q page limit =
     (if page < 1 \<or> limit < 1 \<or> 100 < limit then Inl RequestValidationError
      else
        bind_result
          (case q of
             None \<Rightarrow> Inr ([], 0)
           | Some query \<Rightarrow>
               if query \<noteq> [] \<and> ''responses'' \<in> set (table_names db)
               then
                 let offset = (page - 1) * limit;
                     use_fts = ''responses_fts'' \<in> set (table_names db);
                     attempt =
                       (if use_fts
                        then
                          let safe_query = fts_safe_query query
                          in (case bind_result (run_count engine db (fts_count_query safe_query))
                                     (\<lambda>total.
                                        bind_result
                                          (run_select engine db (fts_search_query safe_query)
                                             [(''limit'', limit), (''offset'', offset)])
                                          (\<lambda>rows. Inr (map (view_result query) rows, total))) of
                                Inr found \<Rightarrow> Some found
                              | Inl _ \<Rightarrow> None)
                        else None)
                 in (case attempt of
                       Some found \<Rightarrow> Inr found
                     | None \<Rightarrow>
                         let like_pattern = like_pattern_of query;
                             selected = (\<lambda>r. sql_like (r_prompt r) like_pattern
                                             \<or> sql_like (r_response r) like_pattern)
                         in bind_result (execute_on ''responses'' (responses db))
                              (\<lambda>counted.
                                 let total = length (filter selected counted)
                                 in bind_result (execute_on ''responses'' (responses db))
                                      (\<lambda>stored.
                                         let rows = limit_offset limit offset
                                                      (order_by_desc r_datetime_utc
                                                        (filter selected stored))
                                         in Inr (map (view_result query) rows, total))))
               else Inr ([], 0))
          (\<lambda>(results, total).
             let total_pages =
                   (if total > 0 then (int total + limit - 1) div limit else 0)
             in Inr \<lparr>sp_query = (case q of None \<Rightarrow> [] | Some query \<Rightarrow> query),
                     sp_results = results, sp_total = total, sp_page = page,
                     sp_limit = limit, sp_total_pages = total_pages\<rparr>))"

text \<open>
  What the search is meant to find: the rows whose prompt or response contains the
  query, letter case ignored.
\<close>

definition contains_nocase :: "string option \<Rightarrow> string \<Rightarrow> bool" where
  "contains_nocase column query =
     (case column of
        None \<Rightarrow> False
      | Some s \<Rightarrow>
          str_find (lower_basic (code_points s)) (lower_basic (code_points query)) \<noteq> - 1)"

text \<open>
  The query as \<open>_search_like\<close> means to put it into the pattern: every \<open>%\<close> and every
  \<open>_\<close> preceded by the escape character.
\<close>

definition escaped :: "char \<Rightarrow> string \<Rightarrow> string" where
  "escaped esc q =
     concat (map (\<lambda>c. if c = CHR ''%'' \<or> c = CHR ''_'' then [esc, c] else [c]) q)"

section \<open>Tools\<close>

record tool_definition =
  td_id :: int
  td_name :: string
  td_description :: "string option"
  td_input_schema :: "string option"
  td_plugin :: "string option"
  td_call_count :: nat
  td_result_count :: nat
  td_error_count :: nat

record tool_list_response =
  tl_items :: "tool_definition list"
  tl_total :: nat

text \<open>
  \<open>list_tools\<close> of \<open>api/tools.py\<close>: one of three statements, by the tables that
  exist. The joined subqueries give, for a tool, the number of its calls, of its
  results and of its results with an exception, 0 where it has none.
\<close>

definition ToolDefinition :: "tool \<Rightarrow> nat \<Rightarrow> nat \<Rightarrow> nat \<Rightarrow> tool_definition" where
  "ToolDefinition t call_count result_count error_count =
     \<lparr>td_id = t_id t, td_name = t_name t, td_description = t_description t,
      td_input_schema = t_input_schema t, td_plugin = t_plugin t,
      td_call_count = call_count, td_result_count = result_count,
      td_error_count = error_count\<rparr>"

definition list_tools :: "database \<Rightarrow> tool_list_response" where
  "list_tools db =
     (if ''tools'' \<notin> set (table_names db) then \<lparr>tl_items = [], tl_total = 0\<rparr>
      else
        let has_tool_calls = ''tool_calls'' \<in> set (table_names db);
            has_tool_results = ''tool_results'' \<in> set (table_names db);
            calls_of = (\<lambda>t. filter (\<lambda>c. tc_tool_id c = t_id t) (rows_where_on (tool_calls db)));
            results_of = (\<lambda>t. filter (\<lambda>r. tr_tool_id r = t_id t) (rows_where_on (tool_results db)));
            rows =
              (if has_tool_calls \<and> has_tool_results
               then order_by_desc td_call_count
                      (map (\<lambda>t. ToolDefinition t (length (calls_of t)) (length (results_of t))
                                   (length (filter (\<lambda>r. tr_exception r \<noteq> None) (results_of t))))
                         (rows_where_on (tools db)))
               else if has_tool_calls
               then order_by_desc td_call_count
                      (map (\<lambda>t. ToolDefinition t (length (calls_of t)) 0 0)
                         (rows_where_on (tools db)))
               else map (\<lambda>t. ToolDefinition t 0 0 0) (rows_where_on (tools db)));
            items = rows
        in \<lparr>tl_items = items, tl_total = length items\<rparr>)"

section \<open>Example databases\<close>

text \<open>
  A database with the bookkeeping table only, and one that also holds a single response
  with a tool call that failed.
\<close>

definition bare_database :: database where
  "bare_database =
     \<lparr>llm_migrations = True, responses = None, conversations = None, tools = None,
      tool_calls = None, tool_results = None, prompt_attachments = None,
      attachments = None, responses_fts = False\<rparr>"

definition example_response :: response where
  "example_response =
     \<lparr>r_id = ''01'', r_model = ''gpt-4'', r_prompt = Some ''Hello'', r_response = Some ''Hi'',
      r_conversation_id = Some ''c1'', r_duration_ms = Some 120,
      r_datetime_utc = Some ''2024-01-01 10:00:00'',
      r_input_tokens = Some 100, r_output_tokens = Some 50\<rparr>"

definition example_database :: database where
  "example_database = bare_database\<lparr>responses := Some [example_response]\<rparr>"

definition example_attachment :: row_dict where
  "example_attachment =
     [(''id'', Text ''a1''), (''type'', Text ''image/png''), (''path'', Null), (''url'', Null),
      (''content'', Blob [137, 80, 78, 71])]"

definition attachment_database :: database where
  "attachment_database =
     example_database
       \<lparr>prompt_attachments :=
          Some [\<lparr>pa_response_id = ''01'', pa_attachment_id = ''a1'', pa_order = 0\<rparr>],
        attachments := Some [example_attachment]\<rparr>"

definition tool_database :: database where
  "tool_database =
     example_database
       \<lparr>conversations := Some [\<lparr>c_id = ''c1'', c_name = None, c_model = Some ''gpt-4''\<rparr>],
        tools := Some [\<lparr>t_id = 1, t_name = ''fetch'', t_description = None,
                        t_input_schema = None, t_plugin = None\<rparr>],
        tool_calls := Some [\<lparr>tc_id = 1, tc_response_id = ''01'', tc_tool_id = 1,
                             tc_name = ''fetch'', tc_arguments = None, tc_tool_call_id = None\<rparr>],
        tool_results := Some [\<lparr>tr_id = 1, tr_response_id = ''01'', tr_tool_id = 1,
                               tr_name = ''fetch'', tr_output = None,
                               tr_exception = Some ''timeout'', tr_tool_call_id = None\<rparr>]\<rparr>"

definition skewed_database :: database where
  "skewed_database =
     bare_database\<lparr>responses := Some [example_response\<lparr>r_duration_ms := Some (- 5)\<rparr>]\<rparr>"

text \<open>
  A database with two responses: the prompt of the first contains a backslash, the
  prompt of the second ends in a percent sign and contains none.
\<close>

definition path_response :: response where
  "path_response =
     example_response\<lparr>r_id := ''01'', r_prompt := Some (''C:'' @ [backslash] @ ''temp''),
                      r_response := None\<rparr>"

definition percent_response :: response where
  "percent_response =
     example_response\<lparr>r_id := ''02'', r_prompt := Some ''100%'', r_response := None\<rparr>"

definition backslash_database :: database where
  "backslash_database = bare_database\<lparr>responses := Some [path_response, percent_response]\<rparr>"

text \<open>
  A text of 57 capital I with a dot above (U+0130) followed by the word \<open>needle\<close>; and
  a file system that holds a text file and nothing else.
\<close>

definition dotted_text :: str where
  "dotted_text = replicate 57 304 @ code_points ''needle''"

definition notes_file_system :: file_system where
  "notes_file_system path = (if path = ''notes.txt'' then Some OtherFile else None)"

section \<open>Properties of the text operations\<close>

lemma occurs_at_0: "occurs_at s sub 0 \<longleftrightarrow> take (length sub) s = sub"
proof
  assume "occurs_at s sub 0"
  then show "take (length sub) s = sub" by (simp add: occurs_at_def)
next
  assume h: "take (length sub) s = sub"
  then have "length (take (length sub) s) = length sub" by simp
  then have "length sub \<le> length s" by simp
  with h show "occurs_at s sub 0" by (simp add: occurs_at_def)
qed

lemma occurs_at_Suc: "occurs_at (c # cs) sub (Suc p) \<longleftrightarrow> occurs_at cs sub p"
  by (simp add: occurs_at_def)

lemma occurs_at_Nil: "occurs_at [] sub p \<longleftrightarrow> p = 0 \<and> sub = []"
  by (auto simp: occurs_at_def)

lemma find_from_none:
  "(\<forall>p. \<not> occurs_at s sub p) \<Longrightarrow> find_from sub s i = - 1"
proof (induction s arbitrary: i)
  case Nil
  then show ?case by (auto simp: occurs_at_Nil)
next
  case (Cons c cs)
  from Cons.prems have n0: "take (length sub) (c # cs) \<noteq> sub"
    using occurs_at_0 [of "c # cs" sub] by blast
  from Cons.prems have "\<forall>p. \<not> occurs_at cs sub p"
    using occurs_at_Suc [of c cs sub] by blast
  then have "find_from sub cs (Suc i) = - 1" by (rule Cons.IH)
  with n0 show ?case by simp
qed

lemma find_from_first:
  "occurs_at s sub p \<Longrightarrow> (\<forall>j<p. \<not> occurs_at s sub j) \<Longrightarrow> find_from sub s i = int (i + p)"
proof (induction s arbitrary: i p)
  case Nil
  then show ?case by (auto simp: occurs_at_Nil)
next
  case (Cons c cs)
  show ?case
  proof (cases p)
    case 0
    with Cons.prems(1) have "take (length sub) (c # cs) = sub"
      using occurs_at_0 [of "c # cs" sub] by simp
    with 0 show ?thesis by simp
  next
    case (Suc q)
    with Cons.prems(2) have "\<not> occurs_at (c # cs) sub 0" by blast
    then have n0: "take (length sub) (c # cs) \<noteq> sub"
      using occurs_at_0 [of "c # cs" sub] by blast
    from Suc Cons.prems(1) have oq: "occurs_at cs sub q"
      using occurs_at_Suc [of c cs sub q] by simp
    have "\<forall>j<q. \<not> occurs_at cs sub j"
    proof (intro allI impI)
      fix j assume "j < q"
      then have "Suc j < p" using Suc by simp
      with Cons.prems(2) have "\<not> occurs_at (c # cs) sub (Suc j)" by blast
      then show "\<not> occurs_at cs sub j" using occurs_at_Suc [of c cs sub j] by simp
    qed
    with oq have "find_from sub cs (Suc i) = int (Suc i + q)" by (rule Cons.IH)
    with n0 Suc show ?thesis by simp
  qed
qed

lemma slice_nonneg:
  "slice xs (int a) (int b) = drop a (take b xs)"
  by (simp add: slice_def clip_index_def min_def)

lemma str_find_found: "str_find s sub \<noteq> - 1 \<longleftrightarrow> (\<exists>p. occurs_at s sub p)"
proof
  assume "str_find s sub \<noteq> - 1"
  then show "\<exists>p. occurs_at s sub p"
    using find_from_none [of s sub 0] by (auto simp: str_find_def)
next
  assume "\<exists>p. occurs_at s sub p"
  then obtain p where p: "occurs_at s sub p" "\<forall>j<p. \<not> occurs_at s sub j"
    using exists_least_iff [of "occurs_at s sub"] by blast
  then have "str_find s sub = int p"
    using find_from_first [of s sub p 0] by (simp add: str_find_def)
  then show "str_find s sub \<noteq> - 1" by simp
qed

section \<open>Snippet extraction\<close>

text \<open>
  What \<open>create_snippet\<close> does for a non-empty text and a \<open>max_length\<close> that is not
  negative, whatever \<open>str.lower\<close> is. Where the lowered query does not occur in the
  lowered text, it returns the first \<open>max_length\<close> characters, with an ellipsis behind
  exactly when the text is longer. Where it occurs, first at position \<open>p\<close> of the
  lowered text, it returns the window around \<open>p\<close> taken as a position of the text.
\<close>

lemma create_snippet_by_lowered_position:
  assumes "text \<noteq> []" and "0 \<le> max_length"
  shows "((\<forall>p. \<not> occurs_at (lower text) (lower query) p) \<longrightarrow>
            create_snippet lower text query max_length =
              (if nat max_length < length text
               then take (nat max_length) text @ code_points ''...'' else text))
       \<and> (\<forall>p. occurs_at (lower text) (lower query) p
                \<and> (\<forall>i<p. \<not> occurs_at (lower text) (lower query) i) \<longrightarrow>
            create_snippet lower text query max_length = window_around text query p)"
proof -
  have none: "create_snippet lower text query max_length =
      (if nat max_length < length text
       then take (nat max_length) text @ code_points ''...'' else text)"
    if h: "\<forall>p. \<not> occurs_at (lower text) (lower query) p"
  proof -
    have "str_find (lower text) (lower query) = - 1"
      unfolding str_find_def using h by (rule find_from_none)
    moreover have "slice text 0 max_length = take (nat max_length) text"
      using assms(2) slice_nonneg [of "text" 0 "nat max_length"] by simp
    moreover have "(int (length text) > max_length) = (nat max_length < length text)"
      using assms(2) by linarith
    ultimately show ?thesis using assms(1) by (simp add: create_snippet_def)
  qed
  have found: "create_snippet lower text query max_length = window_around text query p"
    if h: "occurs_at (lower text) (lower query) p"
      and l: "\<forall>i<p. \<not> occurs_at (lower text) (lower query) i" for p
  proof -
    have pos: "str_find (lower text) (lower query) = int p"
      unfolding str_find_def using h l find_from_first [of "lower text" "lower query" p 0]
      by simp
    have st: "max 0 (int p - 50) = int (p - 50)" by linarith
    have en: "min (int (length text)) (int p + int (length query) + 150)
            = int (min (length text) (p + length query + 150))" by linarith
    have sl: "slice text (int (p - 50)) (int (min (length text) (p + length query + 150)))
            = drop (p - 50) (take (min (length text) (p + length query + 150)) text)"
      by (rule slice_nonneg)
    have np: "int p \<noteq> - 1" by simp
    show ?thesis
      unfolding create_snippet_def window_around_def Let_def pos st en sl
      using assms(1) np by (simp del: min.absorb1 min.absorb2 min.absorb3 min.absorb4)
  qed
  show ?thesis using none found by blast
qed

text \<open>
  Where \<open>str.lower\<close> works character by character on the characters of the text and
  the query (each lowers to one character, whatever stands around it), a position of
  the lowered text is a position of the text, and the snippet is the one asked for:
  the start of the text where the query matches nowhere, and the window around the
  first case-insensitive occurrence otherwise. A match at position 0 then gets no
  ellipsis in front, and a match that ends where the text ends gets none behind.
\<close>

lemma matches_at_lowered:
  assumes "\<And>s. set s \<subseteq> set text \<union> set query \<Longrightarrow> lower s = map f s"
  shows "occurs_at (lower text) (lower query) p \<longleftrightarrow> matches_at lower text query p"
proof -
  have t: "lower text = map f text" and q: "lower query = map f query"
    using assms by simp_all
  have "set (take (length query) (drop p text)) \<subseteq> set text \<union> set query"
    by (meson in_set_dropD in_set_takeD subsetI UnI1)
  then have w: "lower (take (length query) (drop p text))
                  = map f (take (length query) (drop p text))"
    by (rule assms)
  show ?thesis
    by (simp add: occurs_at_def matches_at_def t q w take_map drop_map)
qed

lemma create_snippet_character_wise:
  assumes "text \<noteq> []" and "0 \<le> max_length"
    and "\<And>s. set s \<subseteq> set text \<union> set query \<Longrightarrow> lower s = map f s"
  shows "((\<forall>p. \<not> matches_at lower text query p) \<longrightarrow>
            create_snippet lower text query max_length =
              (if nat max_length < length text
               then take (nat max_length) text @ code_points ''...'' else text))
       \<and> (\<forall>p. first_occurrence lower text query p \<longrightarrow>
            create_snippet lower text query max_length = window_around text query p)
       \<and> (first_occurrence lower text query 0 \<longrightarrow>
            create_snippet lower text query max_length =
              take (min (length text) (length query + 150)) text
              @ (if min (length text) (length query + 150) < length text
                 then code_points ''...'' else []))
       \<and> (\<forall>p. first_occurrence lower text query p \<and> p + length query = length text \<longrightarrow>
            create_snippet lower text query max_length =
              (if 0 < p - 50 then code_points ''...'' else []) @ drop (p - 50) text)"
proof -
  have eq: "occurs_at (lower text) (lower query) p = matches_at lower text query p" for p
    using assms(3) by (rule matches_at_lowered)
  note base = create_snippet_by_lowered_position [OF assms(1,2), of lower query, unfolded eq]
  have none: "create_snippet lower text query max_length =
      (if nat max_length < length text
       then take (nat max_length) text @ code_points ''...'' else text)"
    if "\<forall>p. \<not> matches_at lower text query p"
    using base that by blast
  have found: "create_snippet lower text query max_length = window_around text query p"
    if "first_occurrence lower text query p" for p
    using base that unfolding first_occurrence_def by blast
  have at0: "create_snippet lower text query max_length =
      take (min (length text) (length query + 150)) text
      @ (if min (length text) (length query + 150) < length text
         then code_points ''...'' else [])"
    if h: "first_occurrence lower text query 0"
    using found [OF h] by (simp add: window_around_def)
  have at_end: "create_snippet lower text query max_length =
      (if 0 < p - 50 then code_points ''...'' else []) @ drop (p - 50) text"
    if h: "first_occurrence lower text query p" and e: "p + length query = length text" for p
  proof -
    have "min (length text) (p + length query + 150) = length text" using e by simp
    with found [OF h] show ?thesis by (simp add: window_around_def)
  qed
  show ?thesis using none found at0 at_end by blast
qed

text \<open>
  The text of 57 capital I with a dot above followed by \<open>needle\<close>, and the query
  \<open>needle\<close>, evaluated piece by piece.
\<close>

lemma dotted_snippet:
  "create_snippet lower_basic dotted_text (code_points ''needle'') default_max_length
     = code_points ''...''"
  by code_simp

lemma dotted_occurs: "occurs_at dotted_text (code_points ''needle'') 57"
  by code_simp

lemma dotted_matches: "matches_at lower_basic dotted_text (code_points ''needle'') 57"
  by code_simp

lemma dotted_first:
  "list_all (\<lambda>i. \<not> matches_at lower_basic dotted_text (code_points ''needle'') i) [0..<57]"
  by code_simp

lemma dotted_window:
  "window_around dotted_text (code_points ''needle'') 57
     = code_points ''...'' @ replicate 50 304 @ code_points ''needle''"
  by code_simp

lemma ellipsis_without_needle: "str_find (code_points ''...'') (code_points ''needle'') = - 1"
  by code_simp

text \<open>
  Claim C2 asks for this snippet for every non-empty text and every query.
  \<open>create_snippet\<close> takes the position it finds in the lowered text for a position of
  the text, and lowering can make a text longer. In the text of 57 capital I with a
  dot above followed by \<open>needle\<close>, the query \<open>needle\<close> occurs at position 57 and matches
  nowhere before. The lowered text has it at position 114, past the end of the text,
  and the function returns an ellipsis and nothing else: not the window around
  position 57, and a snippet in which the query does not occur.
\<close>

theorem create_snippet_lengthening_lower:
  "create_snippet lower_basic dotted_text (code_points ''needle'') default_max_length
     = code_points ''...''
   \<and> occurs_at dotted_text (code_points ''needle'') 57
   \<and> matches_at lower_basic dotted_text (code_points ''needle'') 57
   \<and> list_all (\<lambda>i. \<not> matches_at lower_basic dotted_text (code_points ''needle'') i) [0..<57]
   \<and> window_around dotted_text (code_points ''needle'') 57
     = code_points ''...'' @ replicate 50 304 @ code_points ''needle''
   \<and> str_find (create_snippet lower_basic dotted_text (code_points ''needle'')
                 default_max_length) (code_points ''needle'') = - 1"
  unfolding dotted_snippet
  using dotted_occurs dotted_matches dotted_first dotted_window ellipsis_without_needle
  by (intro conjI) (rule refl, assumption+)

text \<open>
  Claim C10. The snippet function of the JSON API and the one of the HTML search view
  return the same string on every text, query and \<open>max_length\<close>, whatever \<open>str.lower\<close>
  is.
\<close>

theorem create_snippet_views_agree:
  "create_snippet lower text query max_length = view_create_snippet lower text query max_length"
  unfolding create_snippet_def view_create_snippet_def by (rule refl)

section \<open>Listing responses\<close>

lemma responses_in_table_names:
  "''responses'' \<in> set (table_names db) \<longleftrightarrow> responses db \<noteq> None"
  by (simp add: table_names_def)

lemma where_holds_Nil: "where_holds ps [] r"
  by (simp add: where_holds_def)

lemma build_where_holds:
  "where_holds (snd (build_where m c s e)) (fst (build_where m c s e)) r
     = applied_filter m c s e r"
  by (cases m; cases c; cases s; cases e)
     (simp_all add: build_where_def where_holds_def applied_filter_def matches_filter_def
        supplied_def truthy_def column_value_def update_conv' split: option.splits)

lemma clause_sql_nonempty: "clause_sql c \<noteq> []"
  by (cases c) simp_all

lemma join_nonempty: "parts \<noteq> [] \<Longrightarrow> join sep (map clause_sql parts) \<noteq> []"
proof (induction parts)
  case Nil
  then show ?case by simp
next
  case (Cons c cs)
  then show ?case by (cases cs) (simp_all add: clause_sql_nonempty)
qed

lemma order_by_desc_descending: "sorted (rev (map key (order_by_desc key rows)))"
  by (simp add: order_by_desc_def rev_map [symmetric])

lemma order_by_desc_same_rows: "mset (order_by_desc key rows) = mset rows"
  by (simp add: order_by_desc_def)

lemma list_responses_result:
  assumes "1 \<le> limit" and "limit \<le> 500" and "0 \<le> offset"
  shows "list_responses db limit offset m c s e =
           Inr \<lparr>rl_items = take (nat limit) (drop (nat offset)
                    (order_by_desc r_datetime_utc
                      (filter (applied_filter m c s e) (rows_where_on (responses db))))),
                rl_total = length (filter (applied_filter m c s e) (rows_where_on (responses db))),
                rl_limit = limit, rl_offset = offset\<rparr>"
proof (cases "responses db")
  case None
  then have "''responses'' \<notin> set (table_names db)"
    by (simp add: responses_in_table_names)
  with assms None show ?thesis
    by (simp add: list_responses_def rows_where_on_def order_by_desc_def)
next
  case (Some rows)
  then have inn: "''responses'' \<in> set (table_names db)"
    by (simp add: responses_in_table_names)
  obtain cl ps where bw: "build_where m c s e = (cl, ps)"
    by (cases "build_where m c s e")
  have holds: "where_holds ps cl = applied_filter m c s e"
    using build_where_holds [of m c s e] bw by (simp add: fun_eq_iff)
  have cnt: "length (filter (where_holds ps cl) rows) = length rows" if "\<not> truthy (where_text cl)"
  proof -
    have "cl = []"
    proof (rule ccontr)
      assume "cl \<noteq> []"
      then have "truthy (where_text cl)"
        by (simp add: where_text_def truthy_def join_nonempty)
      with that show False by simp
    qed
    then show ?thesis by (simp add: where_holds_Nil)
  qed
  show ?thesis
  proof (cases "truthy (where_text cl)")
    case False
    with assms Some inn bw holds cnt show ?thesis
      by (simp add: list_responses_def execute_on_def rows_where_on_def bind_result_def
            limit_offset_def)
  next
    case True
    with assms Some inn bw holds show ?thesis
      by (simp add: list_responses_def execute_on_def rows_where_on_def bind_result_def
            limit_offset_def)
  qed
qed

text \<open>
  Claim C1, as amended. For a limit in 1..500 and an offset that is not negative,
  \<open>list_responses\<close> returns without error; its items are rows \<open>offset\<close> up to
  \<open>offset + limit\<close> of the rows passing the filter, latest \<open>datetime_utc\<close> first, so
  at most \<open>limit\<close> of them; its total is the number of rows passing the same filter;
  and with no such row the items are empty and the total is 0. The filter is the
  conjunction of the supplied settings, where a setting that is absent or the empty
  string constrains nothing. The ordered rows are the rows passing the filter, each as
  often as it is stored, with timestamps that never increase along the list.
\<close>

theorem list_responses_page:
  assumes "1 \<le> limit" and "limit \<le> 500" and "0 \<le> offset"
  shows "\<exists>res.
           list_responses db limit offset model conversation_id start_date end_date = Inr res
         \<and> length (rl_items res) \<le> nat limit
         \<and> rl_items res =
             take (nat limit) (drop (nat offset)
               (order_by_desc r_datetime_utc
                 (filter (applied_filter model conversation_id start_date end_date)
                   (rows_where_on (responses db)))))
         \<and> rl_total res =
             length (filter (applied_filter model conversation_id start_date end_date)
                      (rows_where_on (responses db)))
         \<and> (filter (applied_filter model conversation_id start_date end_date)
               (rows_where_on (responses db)) = []
              \<longrightarrow> rl_items res = [] \<and> rl_total res = 0)
         \<and> mset (order_by_desc r_datetime_utc
                    (filter (applied_filter model conversation_id start_date end_date)
                      (rows_where_on (responses db))))
             = mset (filter (applied_filter model conversation_id start_date end_date)
                      (rows_where_on (responses db)))
         \<and> sorted (rev (map r_datetime_utc
                    (order_by_desc r_datetime_utc
                      (filter (applied_filter model conversation_id start_date end_date)
                        (rows_where_on (responses db))))))"
proof -
  let ?matching = "filter (applied_filter model conversation_id start_date end_date)
                     (rows_where_on (responses db))"
  let ?res = "\<lparr>rl_items = take (nat limit) (drop (nat offset)
                    (order_by_desc r_datetime_utc ?matching)),
               rl_total = length ?matching, rl_limit = limit, rl_offset = offset\<rparr>"
  have run: "list_responses db limit offset model conversation_id start_date end_date = Inr ?res"
    using assms by (rule list_responses_result)
  have short: "length (rl_items ?res) \<le> nat limit" by simp
  have none: "rl_items ?res = [] \<and> rl_total ?res = 0" if "?matching = []"
    using that by (simp add: order_by_desc_def)
  have perm: "mset (order_by_desc r_datetime_utc ?matching) = mset ?matching"
    by (rule order_by_desc_same_rows)
  have desc: "sorted (rev (map r_datetime_utc (order_by_desc r_datetime_utc ?matching)))"
    by (rule order_by_desc_descending)
  from run short none perm desc show ?thesis by (intro exI [of _ ?res]) simp
qed

theorem list_responses_page_witness:
  "\<exists>res. list_responses example_database 50 0 (Some ''gpt-4'') None (Some ''2024'') None = Inr res
         \<and> rl_items res = [example_response] \<and> rl_total res = 1"
proof -
  have bounds: "(1::int) \<le> 50" "(50::int) \<le> 500" "(0::int) \<le> 0" by simp_all
  have rows: "filter (applied_filter (Some ''gpt-4'') None (Some ''2024'') None)
                (rows_where_on (responses example_database)) = [example_response]"
    by code_simp
  have sorted: "order_by_desc r_datetime_utc [example_response] = [example_response]"
    by (simp add: order_by_desc_def)
  from list_responses_page [OF bounds, of example_database "Some ''gpt-4''" None "Some ''2024''" None]
  show ?thesis by (auto simp: rows sorted)
qed

text \<open>
  The claim as first stated takes every supplied value as a constraint. With the model
  filter set to the empty string the endpoint applies no constraint at all: it returns
  the one stored response, whose model is \<open>gpt-4\<close>, with total 1, while no row has the
  empty string as its model.
\<close>

theorem list_responses_empty_filter_counterexample:
  "list_responses example_database 50 0 (Some '''') None None None =
     Inr \<lparr>rl_items = [example_response], rl_total = 1, rl_limit = 50, rl_offset = 0\<rparr>
   \<and> filter (matches_filter (Some '''') None None None) [example_response] = []"
  by code_simp

section \<open>Validating the database file\<close>

text \<open>
  The outcomes of \<open>validate\<close>, each with the paths that lead to it. It fails with
  \<open>DatabaseNotFoundError\<close> exactly when nothing exists at the path, with
  \<open>InvalidDatabaseError\<close> exactly when a database exists there whose tables do not
  include \<open>_llm_migrations\<close>, and returns normally exactly when a database exists there
  that has this table. On a file that is no database, and on a directory, the error of
  the SQLite driver comes through.
\<close>

lemma validate_outcomes:
  "((\<exists>msg. validate fs db_path = Inl (DatabaseNotFoundError msg)) \<longleftrightarrow> fs db_path = None)
   \<and> ((\<exists>msg. validate fs db_path = Inl (InvalidDatabaseError msg)) \<longleftrightarrow>
        (\<exists>db. fs db_path = Some (SqliteFile db) \<and> ''_llm_migrations'' \<notin> set (table_names db)))
   \<and> (validate fs db_path = Inr () \<longleftrightarrow>
        (\<exists>db. fs db_path = Some (SqliteFile db) \<and> ''_llm_migrations'' \<in> set (table_names db)))
   \<and> ((\<exists>msg. validate fs db_path = Inl (Sqlite3DatabaseError msg)) \<longleftrightarrow>
        fs db_path = Some OtherFile)
   \<and> ((\<exists>msg. validate fs db_path = Inl (OperationalError msg)) \<longleftrightarrow>
        fs db_path = Some Directory)"
proof (cases "fs db_path")
  case None
  then show ?thesis by (simp add: validate_def)
next
  case (Some f)
  then show ?thesis
    by (cases f) (auto simp: validate_def open_table_names_def bind_result_def)
qed

text \<open>
  Claim C7 asks for \<open>InvalidDatabaseError\<close> whenever the file exists and has no
  \<open>_llm_migrations\<close> table, and for a normal return in every other case. For a path
  at which a text file lies, \<open>validate\<close> does neither: \<open>table_names()\<close> fails in the
  driver, and the error that comes out is \<open>sqlite3.DatabaseError\<close>, which is none of
  the errors that \<open>database.py\<close> declares.
\<close>

theorem validate_text_file:
  "validate notes_file_system ''notes.txt'' = Inl (Sqlite3DatabaseError ''file is not a database'')
   \<and> notes_file_system ''notes.txt'' = Some OtherFile
   \<and> validate notes_file_system ''notes.txt'' \<noteq> Inl (InvalidDatabaseError ''notes.txt'')
   \<and> validate notes_file_system ''notes.txt'' \<noteq> Inr ()"
  by (simp add: validate_def notes_file_system_def open_table_names_def bind_result_def)

section \<open>Attachments of a response\<close>

lemma prompt_attachments_in_table_names:
  "''prompt_attachments'' \<in> set (table_names db) \<longleftrightarrow> prompt_attachments db \<noteq> None"
  by (simp add: table_names_def)

lemma table_names_attachments_update:
  "''prompt_attachments'' \<in> set (table_names (db\<lparr>attachments := stored'\<rparr>))
     \<longleftrightarrow> ''prompt_attachments'' \<in> set (table_names db)"
  by (simp add: table_names_def)

lemma lookup_id_delete_content:
  "map_of (AList.delete ''content'' a) ''id'' = map_of a ''id''"
  by (simp add: delete_conv')

lemma id_filter_related:
  assumes "list_all2 (\<lambda>a b. AList.delete ''content'' a = AList.delete ''content'' b) xs ys"
  shows "list_all2 (\<lambda>a b. AList.delete ''content'' a = AList.delete ''content'' b)
           (filter (\<lambda>a. map_of a ''id'' = v) xs) (filter (\<lambda>a. map_of a ''id'' = v) ys)"
  using assms
proof (induction rule: list_all2_induct)
  case Nil
  then show ?case by simp
next
  case (Cons a xs b ys)
  have "map_of a ''id'' = map_of b ''id''"
    using Cons.hyps(1) lookup_id_delete_content [of a] lookup_id_delete_content [of b] by simp
  with Cons show ?case by simp
qed

lemma first_match_related:
  assumes "list_all2 (\<lambda>a b. AList.delete ''content'' a = AList.delete ''content'' b) xs ys"
  shows "(case xs of [] \<Rightarrow> [] | row # _ \<Rightarrow> [AList.update k v (AList.delete ''content'' row)])
       = (case ys of [] \<Rightarrow> [] | row # _ \<Rightarrow> [AList.update k v (AList.delete ''content'' row)])"
  using assms by (cases xs; cases ys) simp_all

lemma rows_where_on_related:
  assumes "same_but_content stored stored'"
  shows "list_all2 (\<lambda>a b. AList.delete ''content'' a = AList.delete ''content'' b)
           (rows_where_on stored) (rows_where_on stored')"
  using assms by (cases stored; cases stored') (simp_all add: same_but_content_def rows_where_on_def)

lemma attachment_without_content:
  "att \<in> set (get_response_attachments db response_id) \<Longrightarrow> map_of att ''content'' = None"
  by (auto simp: get_response_attachments_def Let_def update_conv' delete_conv'
           split: if_splits list.splits)

text \<open>
  Claim C9. No attachment object that \<open>get_response_attachments\<close> returns has a
  \<open>content\<close> key, and the returned list is the same for any two states of the
  \<open>attachments\<close> table that differ only in the stored content.
\<close>

theorem attachments_hide_content:
  assumes "same_but_content (attachments db) stored'"
  shows "(\<forall>att \<in> set (get_response_attachments db response_id). map_of att ''content'' = None)
       \<and> get_response_attachments (db\<lparr>attachments := stored'\<rparr>) response_id
           = get_response_attachments db response_id"
proof
  show "\<forall>att \<in> set (get_response_attachments db response_id). map_of att ''content'' = None"
    using attachment_without_content by blast
next
  have rel: "list_all2 (\<lambda>a b. AList.delete ''content'' a = AList.delete ''content'' b)
           (rows_where_on (attachments db)) (rows_where_on stored')"
    using assms by (rule rows_where_on_related)
  have each: "(case filter (\<lambda>a. map_of a ''id'' = v) (rows_where_on stored') of
                 [] \<Rightarrow> [] | row # _ \<Rightarrow> [AList.update k w (AList.delete ''content'' row)])
            = (case filter (\<lambda>a. map_of a ''id'' = v) (rows_where_on (attachments db)) of
                 [] \<Rightarrow> [] | row # _ \<Rightarrow> [AList.update k w (AList.delete ''content'' row)])"
    for v k w
    using first_match_related [OF id_filter_related [OF rel, of v], of k w] by simp
  show "get_response_attachments (db\<lparr>attachments := stored'\<rparr>) response_id
           = get_response_attachments db response_id"
    unfolding get_response_attachments_def Let_def
    by (simp add: table_names_attachments_update each)
qed

theorem attachments_hide_content_witness:
  "get_response_attachments attachment_database ''01'' =
     [[(''id'', Text ''a1''), (''type'', Text ''image/png''), (''path'', Null), (''url'', Null),
       (''order'', Integer 0)]]
   \<and> get_response_attachments
       (attachment_database\<lparr>attachments :=
          Some [[(''id'', Text ''a1''), (''type'', Text ''image/png''), (''path'', Null),
                 (''url'', Null), (''content'', Blob [1, 2, 3])]]\<rparr>) ''01''
     = get_response_attachments attachment_database ''01''"
proof -
  have same: "same_but_content (attachments attachment_database)
     (Some [[(''id'', Text ''a1''), (''type'', Text ''image/png''), (''path'', Null),
                 (''url'', Null), (''content'', Blob [1, 2, 3])]])"
    by code_simp
  have run: "get_response_attachments attachment_database ''01'' =
     [[(''id'', Text ''a1''), (''type'', Text ''image/png''), (''path'', Null), (''url'', Null),
       (''order'', Integer 0)]]"
    by code_simp
  from attachments_hide_content [OF same, of "''01''"] run show ?thesis by simp
qed

section \<open>Latency histogram\<close>

lemma build_date_filter_holds:
  "where_holds (snd (build_date_filter s e)) (fst (build_date_filter s e)) r = in_bounds s e r"
  by (cases s; cases e)
     (simp_all add: build_date_filter_def where_holds_def in_bounds_def applied_filter_def
        matches_filter_def supplied_def truthy_def column_value_def update_conv'
        split: option.splits)

lemma build_date_filter_holds':
  "build_date_filter s e = (cl, ps) \<Longrightarrow> where_holds ps cl = in_bounds s e"
  using build_date_filter_holds [of s e] by (simp add: fun_eq_iff)

lemma in_bounds_None: "in_bounds None None r"
  by (simp add: in_bounds_def applied_filter_def matches_filter_def supplied_def truthy_def)

lemma in_bounds_inclusive:
  "a \<noteq> [] \<Longrightarrow> b \<noteq> [] \<Longrightarrow>
   in_bounds (Some a) (Some b) r \<longleftrightarrow> (\<exists>d. r_datetime_utc r = Some d \<and> a \<le> d \<and> d \<le> b)"
  by (auto simp: in_bounds_def applied_filter_def matches_filter_def supplied_def truthy_def
           split: option.splits)

lemma latency_result:
  assumes "responses db = Some rows"
  shows "get_latency_distribution db s e =
     [\<lparr>lb_range = ''0-100ms'', lb_count = count_in s e 0 (Some 100) rows\<rparr>,
      \<lparr>lb_range = ''100-500ms'', lb_count = count_in s e 100 (Some 500) rows\<rparr>,
      \<lparr>lb_range = ''500ms-1s'', lb_count = count_in s e 500 (Some 1000) rows\<rparr>,
      \<lparr>lb_range = ''1-2s'', lb_count = count_in s e 1000 (Some 2000) rows\<rparr>,
      \<lparr>lb_range = ''2-5s'', lb_count = count_in s e 2000 (Some 5000) rows\<rparr>,
      \<lparr>lb_range = ''5-10s'', lb_count = count_in s e 5000 (Some 10000) rows\<rparr>,
      \<lparr>lb_range = ''10-30s'', lb_count = count_in s e 10000 (Some 30000) rows\<rparr>,
      \<lparr>lb_range = ''30-60s'', lb_count = count_in s e 30000 (Some 60000) rows\<rparr>,
      \<lparr>lb_range = ''60s+'', lb_count = count_in s e 60000 None rows\<rparr>]"
proof -
  obtain cl ps where b: "build_date_filter s e = (cl, ps)"
    by (cases "build_date_filter s e")
  have h: "where_holds ps cl = in_bounds s e"
    using b by (rule build_date_filter_holds')
  have inn: "''responses'' \<in> set (table_names db)"
    using assms by (simp add: table_names_def)
  have cnt: "length (filter (\<lambda>r. (case r_duration_ms r of None \<Rightarrow> False
                                  | Some d \<Rightarrow> bucket_filter low high d) \<and> in_bounds s e r) rows)
             = count_in s e low high rows" for low high
    by (cases high) (auto simp: count_in_def bucket_filter_def intro!: arg_cong [where f = length] filter_cong split: option.splits)
  show ?thesis
    using assms inn by (simp add: get_latency_distribution_def b h rows_where_on_def buckets_def cnt)
qed

lemma bucket_of_duration:
  fixes d :: int
  shows "of_bool (0 \<le> d \<and> d < 100) + of_bool (100 \<le> d \<and> d < 500)
       + of_bool (500 \<le> d \<and> d < 1000) + of_bool (1000 \<le> d \<and> d < 2000)
       + of_bool (2000 \<le> d \<and> d < 5000) + of_bool (5000 \<le> d \<and> d < 10000)
       + of_bool (10000 \<le> d \<and> d < 30000) + of_bool (30000 \<le> d \<and> d < 60000)
       + of_bool (60000 \<le> d) = (of_bool (0 \<le> d) :: nat)"
proof -
  consider "d < 0" | "0 \<le> d" "d < 100" | "100 \<le> d" "d < 500" | "500 \<le> d" "d < 1000"
    | "1000 \<le> d" "d < 2000" | "2000 \<le> d" "d < 5000" | "5000 \<le> d" "d < 10000"
    | "10000 \<le> d" "d < 30000" | "30000 \<le> d" "d < 60000" | "60000 \<le> d"
    by linarith
  then show ?thesis by cases simp_all
qed

lemma count_in_Nil: "count_in s e low high [] = 0"
  by (simp add: count_in_def)

lemma count_in_Cons:
  "count_in s e low high (r # rows) =
     of_bool (in_bounds s e r \<and>
            (case r_duration_ms r of
               None \<Rightarrow> False
             | Some d \<Rightarrow> low \<le> d \<and> (case high of None \<Rightarrow> True | Some h \<Rightarrow> d < h)))
     + count_in s e low high rows"
  by (simp add: count_in_def)

lemma row_partition:
  "of_bool (in_bounds s e r \<and> (case r_duration_ms r of None \<Rightarrow> False
       | Some d \<Rightarrow> 0 \<le> d \<and> (case Some 100 of None \<Rightarrow> True | Some h \<Rightarrow> d < h)))
   + of_bool (in_bounds s e r \<and> (case r_duration_ms r of None \<Rightarrow> False
       | Some d \<Rightarrow> 100 \<le> d \<and> (case Some 500 of None \<Rightarrow> True | Some h \<Rightarrow> d < h)))
   + of_bool (in_bounds s e r \<and> (case r_duration_ms r of None \<Rightarrow> False
       | Some d \<Rightarrow> 500 \<le> d \<and> (case Some 1000 of None \<Rightarrow> True | Some h \<Rightarrow> d < h)))
   + of_bool (in_bounds s e r \<and> (case r_duration_ms r of None \<Rightarrow> False
       | Some d \<Rightarrow> 1000 \<le> d \<and> (case Some 2000 of None \<Rightarrow> True | Some h \<Rightarrow> d < h)))
   + of_bool (in_bounds s e r \<and> (case r_duration_ms r of None \<Rightarrow> False
       | Some d \<Rightarrow> 2000 \<le> d \<and> (case Some 5000 of None \<Rightarrow> True | Some h \<Rightarrow> d < h)))
   + of_bool (in_bounds s e r \<and> (case r_duration_ms r of None \<Rightarrow> False
       | Some d \<Rightarrow> 5000 \<le> d \<and> (case Some 10000 of None \<Rightarrow> True | Some h \<Rightarrow> d < h)))
   + of_bool (in_bounds s e r \<and> (case r_duration_ms r of None \<Rightarrow> False
       | Some d \<Rightarrow> 10000 \<le> d \<and> (case Some 30000 of None \<Rightarrow> True | Some h \<Rightarrow> d < h)))
   + of_bool (in_bounds s e r \<and> (case r_duration_ms r of None \<Rightarrow> False
       | Some d \<Rightarrow> 30000 \<le> d \<and> (case Some 60000 of None \<Rightarrow> True | Some h \<Rightarrow> d < h)))
   + of_bool (in_bounds s e r \<and> (case r_duration_ms r of None \<Rightarrow> False
       | Some d \<Rightarrow> 60000 \<le> d \<and> (case None of None \<Rightarrow> True | Some h \<Rightarrow> d < h)))
   = (of_bool (in_bounds s e r \<and> (case r_duration_ms r of None \<Rightarrow> False
       | Some d \<Rightarrow> 0 \<le> d \<and> (case None of None \<Rightarrow> True | Some (h::int) \<Rightarrow> d < h))) :: nat)"
proof (cases "r_duration_ms r")
  case None
  then show ?thesis by simp
next
  case (Some d)
  show ?thesis
  proof (cases "in_bounds s e r")
    case True
    with Some bucket_of_duration [of d] show ?thesis by simp
  next
    case False
    then show ?thesis by simp
  qed
qed

lemma add9:
  fixes a1 :: nat
  assumes "a1 + a2 + a3 + a4 + a5 + a6 + a7 + a8 + a9 = a"
    and "c1 + c2 + c3 + c4 + c5 + c6 + c7 + c8 + c9 = c"
  shows "(a1 + c1) + (a2 + c2) + (a3 + c3) + (a4 + c4) + (a5 + c5) + (a6 + c6)
         + (a7 + c7) + (a8 + c8) + (a9 + c9) = a + c"
  using assms by linarith

lemma count_partition:
  "count_in s e 0 (Some 100) rows + count_in s e 100 (Some 500) rows
   + count_in s e 500 (Some 1000) rows + count_in s e 1000 (Some 2000) rows
   + count_in s e 2000 (Some 5000) rows + count_in s e 5000 (Some 10000) rows
   + count_in s e 10000 (Some 30000) rows + count_in s e 30000 (Some 60000) rows
   + count_in s e 60000 None rows
   = count_in s e 0 None rows"
proof (induction rows)
  case Nil
  show ?case by (simp add: count_in_Nil)
next
  case (Cons r rows)
  show ?case
    unfolding count_in_Cons by (rule add9 [OF row_partition Cons.IH])
qed


text \<open>
  Claim C4, as amended. When the \<open>responses\<close> table does not exist the histogram is the
  empty list. When it exists the histogram is the nine buckets 0-100, 100-500, 500-1000,
  1000-2000, 2000-5000, 5000-10000, 10000-30000, 30000-60000 and 60000 upwards, in this
  order and each with its label, whatever its count; each counts the rows inside the
  date bounds whose duration is not \<open>NULL\<close> and lies in its half-open range; and the
  counts add up to the number of rows inside the date bounds whose duration is neither
  \<open>NULL\<close> nor negative.
\<close>

theorem latency_buckets:
  "(responses db = None \<longrightarrow> get_latency_distribution db start_date end_date = [])
   \<and> (\<forall>rows. responses db = Some rows \<longrightarrow>
         get_latency_distribution db start_date end_date =
           [\<lparr>lb_range = ''0-100ms'', lb_count = count_in start_date end_date 0 (Some 100) rows\<rparr>,
            \<lparr>lb_range = ''100-500ms'', lb_count = count_in start_date end_date 100 (Some 500) rows\<rparr>,
            \<lparr>lb_range = ''500ms-1s'', lb_count = count_in start_date end_date 500 (Some 1000) rows\<rparr>,
            \<lparr>lb_range = ''1-2s'', lb_count = count_in start_date end_date 1000 (Some 2000) rows\<rparr>,
            \<lparr>lb_range = ''2-5s'', lb_count = count_in start_date end_date 2000 (Some 5000) rows\<rparr>,
            \<lparr>lb_range = ''5-10s'', lb_count = count_in start_date end_date 5000 (Some 10000) rows\<rparr>,
            \<lparr>lb_range = ''10-30s'', lb_count = count_in start_date end_date 10000 (Some 30000) rows\<rparr>,
            \<lparr>lb_range = ''30-60s'', lb_count = count_in start_date end_date 30000 (Some 60000) rows\<rparr>,
            \<lparr>lb_range = ''60s+'', lb_count = count_in start_date end_date 60000 None rows\<rparr>]
         \<and> sum_list (map lb_count (get_latency_distribution db start_date end_date))
             = count_in start_date end_date 0 None rows)"
proof (intro conjI allI impI)
  assume "responses db = None"
  then have "''responses'' \<notin> set (table_names db)" by (simp add: table_names_def)
  then show "get_latency_distribution db start_date end_date = []"
    by (simp add: get_latency_distribution_def)
next
  fix rows assume r: "responses db = Some rows"
  then show "get_latency_distribution db start_date end_date =
           [\<lparr>lb_range = ''0-100ms'', lb_count = count_in start_date end_date 0 (Some 100) rows\<rparr>,
            \<lparr>lb_range = ''100-500ms'', lb_count = count_in start_date end_date 100 (Some 500) rows\<rparr>,
            \<lparr>lb_range = ''500ms-1s'', lb_count = count_in start_date end_date 500 (Some 1000) rows\<rparr>,
            \<lparr>lb_range = ''1-2s'', lb_count = count_in start_date end_date 1000 (Some 2000) rows\<rparr>,
            \<lparr>lb_range = ''2-5s'', lb_count = count_in start_date end_date 2000 (Some 5000) rows\<rparr>,
            \<lparr>lb_range = ''5-10s'', lb_count = count_in start_date end_date 5000 (Some 10000) rows\<rparr>,
            \<lparr>lb_range = ''10-30s'', lb_count = count_in start_date end_date 10000 (Some 30000) rows\<rparr>,
            \<lparr>lb_range = ''30-60s'', lb_count = count_in start_date end_date 30000 (Some 60000) rows\<rparr>,
            \<lparr>lb_range = ''60s+'', lb_count = count_in start_date end_date 60000 None rows\<rparr>]"
    by (rule latency_result)
next
  fix rows assume r: "responses db = Some rows"
  show "sum_list (map lb_count (get_latency_distribution db start_date end_date))
             = count_in start_date end_date 0 None rows"
    using count_partition [of start_date end_date rows]
    by (simp add: latency_result [OF r])
qed

theorem latency_buckets_witness:
  "get_latency_distribution example_database None None =
     [\<lparr>lb_range = ''0-100ms'', lb_count = 0\<rparr>,
      \<lparr>lb_range = ''100-500ms'', lb_count = 1\<rparr>,
      \<lparr>lb_range = ''500ms-1s'', lb_count = 0\<rparr>,
      \<lparr>lb_range = ''1-2s'', lb_count = 0\<rparr>,
      \<lparr>lb_range = ''2-5s'', lb_count = 0\<rparr>,
      \<lparr>lb_range = ''5-10s'', lb_count = 0\<rparr>,
      \<lparr>lb_range = ''10-30s'', lb_count = 0\<rparr>,
      \<lparr>lb_range = ''30-60s'', lb_count = 0\<rparr>,
      \<lparr>lb_range = ''60s+'', lb_count = 0\<rparr>]
   \<and> get_latency_distribution bare_database (Some ''2024'') None = []"
proof -
  have r: "responses example_database = Some [example_response]"
    by (simp add: example_database_def)
  have n: "responses bare_database = None"
    by (simp add: bare_database_def)
  have c: "count_in None None 0 (Some 100) [example_response] = 0"
    "count_in None None 100 (Some 500) [example_response] = 1"
    "count_in None None 500 (Some 1000) [example_response] = 0"
    "count_in None None 1000 (Some 2000) [example_response] = 0"
    "count_in None None 2000 (Some 5000) [example_response] = 0"
    "count_in None None 5000 (Some 10000) [example_response] = 0"
    "count_in None None 10000 (Some 30000) [example_response] = 0"
    "count_in None None 30000 (Some 60000) [example_response] = 0"
    "count_in None None 60000 None [example_response] = 0"
    by code_simp+
  from latency_buckets [of example_database None None] r
    latency_buckets [of bare_database "Some ''2024''" None] n
  show ?thesis by (simp add: c)
qed

text \<open>
  The claim as first stated fails in two places. Without a \<open>responses\<close> table the
  operation returns no bucket at all. And a stored duration below 0 falls in no bucket:
  the counts add up to 0 while one row has a duration that is not \<open>NULL\<close>.
\<close>

theorem latency_buckets_counterexample:
  "get_latency_distribution bare_database None None = []
   \<and> sum_list (map lb_count (get_latency_distribution skewed_database None None)) = 0
   \<and> length (filter (\<lambda>r. r_duration_ms r \<noteq> None) (rows_where_on (responses skewed_database))) = 1"
  by code_simp

section \<open>The date filter of the aggregations\<close>

lemma table_names_within_bounds:
  "set (table_names (within_bounds s e db)) = set (table_names db)"
  by (cases "responses db") (simp_all add: within_bounds_def table_names_def)

lemma rows_within_bounds:
  "rows_where_on (responses (within_bounds s e db))
     = filter (in_bounds s e) (rows_where_on (responses db))"
  by (cases "responses db") (simp_all add: within_bounds_def rows_where_on_def)

lemma other_tables_within_bounds:
  "conversations (within_bounds s e db) = conversations db"
  "tool_calls (within_bounds s e db) = tool_calls db"
  "tool_results (within_bounds s e db) = tool_results db"
  by (simp_all add: within_bounds_def)

lemma build_date_filter_None: "build_date_filter None None = ([], [])"
  by (simp add: build_date_filter_def)

lemma where_holds_empty: "where_holds ps [] = (\<lambda>r. True)"
  by (simp add: where_holds_def fun_eq_iff)

lemma summary_within_bounds:
  "get_metrics_summary db s e = get_metrics_summary (within_bounds s e db) None None"
proof -
  obtain cl ps where b: "build_date_filter s e = (cl, ps)"
    by (cases "build_date_filter s e")
  have h: "where_holds ps cl = in_bounds s e"
    using b by (rule build_date_filter_holds')
  show ?thesis
    by (simp add: get_metrics_summary_def b h build_date_filter_None where_holds_empty
          table_names_within_bounds rows_within_bounds other_tables_within_bounds)
qed

lemma model_usage_within_bounds:
  "get_model_usage db s e limit = get_model_usage (within_bounds s e db) None None limit"
proof -
  obtain cl ps where b: "build_date_filter s e = (cl, ps)"
    by (cases "build_date_filter s e")
  have h: "where_holds ps cl = in_bounds s e"
    using b by (rule build_date_filter_holds')
  show ?thesis
    by (simp add: get_model_usage_def b h build_date_filter_None where_holds_empty
          table_names_within_bounds rows_within_bounds)
qed

lemma time_series_within_bounds:
  "time_series f agg db s e g = time_series f agg (within_bounds s e db) None None g"
proof -
  obtain cl ps where b: "build_date_filter s e = (cl, ps)"
    by (cases "build_date_filter s e")
  have h: "where_holds ps cl = in_bounds s e"
    using b by (rule build_date_filter_holds')
  have sel: "filter (\<lambda>r. r_datetime_utc r \<noteq> None \<and> where_holds ps cl r) rows
           = filter (\<lambda>r. r_datetime_utc r \<noteq> None \<and> where_holds [] [] r)
               (filter (in_bounds s e) rows)" for rows
    by (simp add: h where_holds_empty conj_commute)
  show ?thesis
    unfolding time_series_def b build_date_filter_None table_names_within_bounds
      rows_within_bounds Let_def prod.case sel
    by (rule refl)
qed

lemma latency_within_bounds:
  "get_latency_distribution db s e = get_latency_distribution (within_bounds s e db) None None"
proof -
  obtain cl ps where b: "build_date_filter s e = (cl, ps)"
    by (cases "build_date_filter s e")
  have h: "where_holds ps cl = in_bounds s e"
    using b by (rule build_date_filter_holds')
  have sel: "filter (\<lambda>r. P r \<and> in_bounds s e r) rows
           = filter P (filter (in_bounds s e) rows)" for P and rows :: "response list"
    by (simp add: conj_commute)
  show ?thesis
    by (simp add: get_latency_distribution_def b h build_date_filter_None where_holds_empty
          table_names_within_bounds rows_within_bounds sel)
qed

lemma summary_whole_tables:
  assumes "responses db \<noteq> None"
  shows "total_conversations (get_metrics_summary db s e) = length (rows_where_on (conversations db))"
    and "total_tool_calls (get_metrics_summary db s e) = length (rows_where_on (tool_calls db))"
    and "total_tool_errors (get_metrics_summary db s e)
           = length (filter (\<lambda>t. tr_exception t \<noteq> None) (rows_where_on (tool_results db)))"
proof -
  have inn: "''responses'' \<in> set (table_names db)"
    using assms by (simp add: table_names_def)
  have c: "''conversations'' \<in> set (table_names db) \<longleftrightarrow> conversations db \<noteq> None"
    and tc: "''tool_calls'' \<in> set (table_names db) \<longleftrightarrow> tool_calls db \<noteq> None"
    and tr: "''tool_results'' \<in> set (table_names db) \<longleftrightarrow> tool_results db \<noteq> None"
    by (simp_all add: table_names_def)
  show "total_conversations (get_metrics_summary db s e) = length (rows_where_on (conversations db))"
    using inn by (cases "conversations db")
      (simp_all add: get_metrics_summary_def Let_def c rows_where_on_def split: prod.splits)
  show "total_tool_calls (get_metrics_summary db s e) = length (rows_where_on (tool_calls db))"
    using inn by (cases "tool_calls db")
      (simp_all add: get_metrics_summary_def Let_def tc rows_where_on_def split: prod.splits)
  show "total_tool_errors (get_metrics_summary db s e)
           = length (filter (\<lambda>t. tr_exception t \<noteq> None) (rows_where_on (tool_results db)))"
    using inn by (cases "tool_results db")
      (simp_all add: get_metrics_summary_def Let_def tr rows_where_on_def split: prod.splits)
qed

lemma summary_of_responses:
  assumes "responses db = Some rows"
  shows "total_responses (get_metrics_summary db s e) = length (filter (in_bounds s e) rows)"
    and "total_input_tokens (get_metrics_summary db s e)
           = coalesce (sql_sum (map r_input_tokens (filter (in_bounds s e) rows))) 0"
    and "total_output_tokens (get_metrics_summary db s e)
           = coalesce (sql_sum (map r_output_tokens (filter (in_bounds s e) rows))) 0"
    and "avg_duration_ms (get_metrics_summary db s e)
           = sql_avg (map r_duration_ms (filter (in_bounds s e) rows))"
    and "avg_input_tokens (get_metrics_summary db s e)
           = sql_avg (map r_input_tokens (filter (in_bounds s e) rows))"
    and "avg_output_tokens (get_metrics_summary db s e)
           = sql_avg (map r_output_tokens (filter (in_bounds s e) rows))"
    and "unique_models (get_metrics_summary db s e)
           = count_distinct (map r_model (filter (in_bounds s e) rows))"
proof -
  obtain cl ps where b: "build_date_filter s e = (cl, ps)"
    by (cases "build_date_filter s e")
  have h: "where_holds ps cl = in_bounds s e"
    using b by (rule build_date_filter_holds')
  have inn: "''responses'' \<in> set (table_names db)"
    using assms by (simp add: table_names_def)
  show "total_responses (get_metrics_summary db s e) = length (filter (in_bounds s e) rows)"
    and "total_input_tokens (get_metrics_summary db s e)
           = coalesce (sql_sum (map r_input_tokens (filter (in_bounds s e) rows))) 0"
    and "total_output_tokens (get_metrics_summary db s e)
           = coalesce (sql_sum (map r_output_tokens (filter (in_bounds s e) rows))) 0"
    and "avg_duration_ms (get_metrics_summary db s e)
           = sql_avg (map r_duration_ms (filter (in_bounds s e) rows))"
    and "avg_input_tokens (get_metrics_summary db s e)
           = sql_avg (map r_input_tokens (filter (in_bounds s e) rows))"
    and "avg_output_tokens (get_metrics_summary db s e)
           = sql_avg (map r_output_tokens (filter (in_bounds s e) rows))"
    and "unique_models (get_metrics_summary db s e)
           = count_distinct (map r_model (filter (in_bounds s e) rows))"
    using assms inn by (simp_all add: get_metrics_summary_def Let_def b h rows_where_on_def)
qed

text \<open>
  Claim C5, as amended. Each of the five aggregations (summary, per-model usage, tokens
  over time, responses over time, latency histogram) applies the optional date filter
  to the rows of \<open>responses\<close> before it aggregates: its result with the filter is its
  result without a filter on the database whose \<open>responses\<close> table holds only the rows
  inside the bounds. The bounds are inclusive and compared as strings, and a bound that
  is absent or empty is no bound. In the summary of a database that has a \<open>responses\<close>
  table, the response count, the token sums, the three averages and the number of
  distinct models are computed over the rows inside the bounds; the conversation count,
  the tool-call count and the tool-error count are counts over their whole tables and
  do not depend on the bounds. Without a \<open>responses\<close> table every field of the summary
  is at its default.
\<close>

theorem date_filter_before_aggregation:
  "get_metrics_summary db start_date end_date
     = get_metrics_summary (within_bounds start_date end_date db) None None
   \<and> get_model_usage db start_date end_date limit
     = get_model_usage (within_bounds start_date end_date db) None None limit
   \<and> get_token_usage_over_time strftime db start_date end_date granularity
     = get_token_usage_over_time strftime (within_bounds start_date end_date db) None None granularity
   \<and> get_responses_over_time strftime db start_date end_date granularity
     = get_responses_over_time strftime (within_bounds start_date end_date db) None None granularity
   \<and> get_latency_distribution db start_date end_date
     = get_latency_distribution (within_bounds start_date end_date db) None None
   \<and> (a \<noteq> [] \<and> b \<noteq> [] \<longrightarrow>
        in_bounds (Some a) (Some b) r = (\<exists>d. r_datetime_utc r = Some d \<and> a \<le> d \<and> d \<le> b))
   \<and> (\<forall>rows. responses db = Some rows \<longrightarrow>
        total_responses (get_metrics_summary db start_date end_date)
          = length (filter (in_bounds start_date end_date) rows)
      \<and> total_input_tokens (get_metrics_summary db start_date end_date)
          = coalesce (sql_sum (map r_input_tokens (filter (in_bounds start_date end_date) rows))) 0
      \<and> total_output_tokens (get_metrics_summary db start_date end_date)
          = coalesce (sql_sum (map r_output_tokens (filter (in_bounds start_date end_date) rows))) 0
      \<and> avg_duration_ms (get_metrics_summary db start_date end_date)
          = sql_avg (map r_duration_ms (filter (in_bounds start_date end_date) rows))
      \<and> avg_input_tokens (get_metrics_summary db start_date end_date)
          = sql_avg (map r_input_tokens (filter (in_bounds start_date end_date) rows))
      \<and> avg_output_tokens (get_metrics_summary db start_date end_date)
          = sql_avg (map r_output_tokens (filter (in_bounds start_date end_date) rows))
      \<and> unique_models (get_metrics_summary db start_date end_date)
          = count_distinct (map r_model (filter (in_bounds start_date end_date) rows))
      \<and> total_conversations (get_metrics_summary db start_date end_date)
          = length (rows_where_on (conversations db))
      \<and> total_tool_calls (get_metrics_summary db start_date end_date)
          = length (rows_where_on (tool_calls db))
      \<and> total_tool_errors (get_metrics_summary db start_date end_date)
          = length (filter (\<lambda>t. tr_exception t \<noteq> None) (rows_where_on (tool_results db))))
   \<and> (responses db = None \<longrightarrow> get_metrics_summary db start_date end_date = MetricsSummary)"
proof -
  have absent: "get_metrics_summary db start_date end_date = MetricsSummary"
    if "responses db = None"
  proof -
    from that have "''responses'' \<notin> set (table_names db)" by (simp add: table_names_def)
    then show ?thesis by (simp add: get_metrics_summary_def)
  qed
  have series:
    "get_token_usage_over_time strftime db start_date end_date granularity
       = get_token_usage_over_time strftime (within_bounds start_date end_date db) None None granularity"
    "get_responses_over_time strftime db start_date end_date granularity
       = get_responses_over_time strftime (within_bounds start_date end_date db) None None granularity"
    unfolding get_token_usage_over_time_def get_responses_over_time_def
    by (rule time_series_within_bounds)+
  have bounds: "in_bounds (Some a) (Some b) r
      = (\<exists>d. r_datetime_utc r = Some d \<and> a \<le> d \<and> d \<le> b)" if "a \<noteq> []" "b \<noteq> []"
    using that by (rule in_bounds_inclusive)
  have whole: "total_conversations (get_metrics_summary db start_date end_date)
          = length (rows_where_on (conversations db))
      \<and> total_tool_calls (get_metrics_summary db start_date end_date)
          = length (rows_where_on (tool_calls db))
      \<and> total_tool_errors (get_metrics_summary db start_date end_date)
          = length (filter (\<lambda>t. tr_exception t \<noteq> None) (rows_where_on (tool_results db)))"
    if "responses db = Some rows" for rows
  proof -
    from that have "responses db \<noteq> None" by simp
    then show ?thesis by (simp add: summary_whole_tables)
  qed
  show ?thesis
    using summary_within_bounds [of db start_date end_date]
      model_usage_within_bounds [of db start_date end_date limit]
      latency_within_bounds [of db start_date end_date]
      series bounds whole summary_of_responses [of db _ start_date end_date] absent
    by (intro conjI allI impI) simp_all
qed

theorem date_filter_before_aggregation_witness:
  "total_responses (get_metrics_summary tool_database (Some ''2024-01-01'') (Some ''2024-12-31'')) = 1
   \<and> total_input_tokens (get_metrics_summary tool_database (Some ''2024-01-01'') (Some ''2024-12-31'')) = 100
   \<and> total_tool_calls (get_metrics_summary tool_database (Some ''2024-01-01'') (Some ''2024-12-31'')) = 1"
proof -
  have r: "responses tool_database = Some [example_response]"
    by (simp add: tool_database_def example_database_def)
  have f: "filter (in_bounds (Some ''2024-01-01'') (Some ''2024-12-31'')) [example_response]
             = [example_response]"
    by code_simp
  have s: "coalesce (sql_sum (map r_input_tokens [example_response])) 0 = 100"
    by code_simp
  have t: "length (rows_where_on (tool_calls tool_database)) = 1"
    by code_simp
  from date_filter_before_aggregation
         [of tool_database "Some ''2024-01-01''" "Some ''2024-12-31''"] r
  have "total_responses (get_metrics_summary tool_database (Some ''2024-01-01'') (Some ''2024-12-31''))
          = length (filter (in_bounds (Some ''2024-01-01'') (Some ''2024-12-31'')) [example_response])
      \<and> total_input_tokens (get_metrics_summary tool_database (Some ''2024-01-01'') (Some ''2024-12-31''))
          = coalesce (sql_sum (map r_input_tokens
              (filter (in_bounds (Some ''2024-01-01'') (Some ''2024-12-31'')) [example_response]))) 0
      \<and> total_tool_calls (get_metrics_summary tool_database (Some ''2024-01-01'') (Some ''2024-12-31''))
          = length (rows_where_on (tool_calls tool_database))"
    by blast
  then show ?thesis unfolding f s t by simp
qed

text \<open>
  The claim as first stated puts every metric of the summary under the date filter. With
  a lower bound later than the only stored response no response is counted, yet its
  conversation, its tool call and its failed tool result are.
\<close>

theorem summary_counts_whole_tables_counterexample:
  "total_responses (get_metrics_summary tool_database (Some ''2025-01-01'') None) = 0
   \<and> total_conversations (get_metrics_summary tool_database (Some ''2025-01-01'') None) = 1
   \<and> total_tool_calls (get_metrics_summary tool_database (Some ''2025-01-01'') None) = 1
   \<and> total_tool_errors (get_metrics_summary tool_database (Some ''2025-01-01'') None) = 1"
  by code_simp

section \<open>Statement text and caller-supplied values\<close>

text \<open>
  The conditions that \<open>list_responses\<close> and the metrics functions assemble depend on
  which filter values are true as conditions, not on the values: they go into the
  parameters.
\<close>

lemma build_where_text_value_free:
  assumes "truthy m = truthy m'" and "truthy c = truthy c'"
    and "truthy s = truthy s'" and "truthy e = truthy e'"
  shows "fst (build_where m c s e) = fst (build_where m' c' s' e')"
  using assms
  by (cases m; cases m'; cases c; cases c'; cases s; cases s'; cases e; cases e')
     (simp_all add: build_where_def truthy_def split: if_splits)

lemma count_statement_value_free:
  assumes "truthy m = truthy m'" and "truthy c = truthy c'"
    and "truthy s = truthy s'" and "truthy e = truthy e'"
  shows "map_option count_query (where_text (fst (build_where m c s e)))
       = map_option count_query (where_text (fst (build_where m' c' s' e')))"
  using build_where_text_value_free [OF assms] by simp

lemma date_filter_text_value_free:
  assumes "truthy s = truthy s'" and "truthy e = truthy e'"
  shows "date_filter_text (fst (build_date_filter s e))
       = date_filter_text (fst (build_date_filter s' e'))"
  using assms
  by (cases s; cases s'; cases e; cases e')
     (simp_all add: build_date_filter_def truthy_def split: if_splits)

lemma replace_char_double_inj:
  "replace_char a [a, a] s = replace_char a [a, a] s' \<Longrightarrow> s = s'"
proof (induction s arbitrary: s')
  case Nil
  then show ?case by (cases s') (simp_all add: replace_char_def split: if_splits)
next
  case (Cons c cs)
  then show ?case
    by (cases s') (auto simp: replace_char_def split: if_splits)
qed

lemma fts_safe_query_inj: "fts_safe_query q = fts_safe_query q' \<longleftrightarrow> q = q'"
  unfolding fts_safe_query_def using replace_char_double_inj by blast

text \<open>
  Claim C3 asks that no caller-supplied value reaches the statement text. The indexed
  search breaks this: different queries give different statement texts, for the count
  statement and for the row statement, so the text determines the query. The query
  \<open>it's\<close> puts a single quote inside the SQL string literal of the \<open>MATCH\<close> operand.
\<close>

theorem fts_statement_text_carries_query:
  "(fts_count_query (fts_safe_query q) = fts_count_query (fts_safe_query q')) = (q = q')
   \<and> (fts_search_query (fts_safe_query q) = fts_search_query (fts_safe_query q')) = (q = q')
   \<and> fts_count_query (fts_safe_query ''it's'') =
       [newline] @ ''        SELECT COUNT('' @ ''*) FROM responses_fts''
       @ [newline] @ ''        WHERE responses_fts MATCH '' @ [single_quote, double_quote]
       @ ''it's'' @ [double_quote, single_quote] @ [newline] @ ''    ''"
proof -
  have "(fts_count_query (fts_safe_query q) = fts_count_query (fts_safe_query q')) = (q = q')"
    by (simp add: fts_count_query_def fts_safe_query_inj)
  moreover
  have "(fts_search_query (fts_safe_query q) = fts_search_query (fts_safe_query q')) = (q = q')"
    by (simp add: fts_search_query_def fts_safe_query_inj)
  moreover
  have "fts_safe_query ''it's'' = ''it's''" by code_simp
  then have "fts_count_query (fts_safe_query ''it's'') =
       [newline] @ ''        SELECT COUNT('' @ ''*) FROM responses_fts''
       @ [newline] @ ''        WHERE responses_fts MATCH '' @ [single_quote, double_quote]
       @ ''it's'' @ [double_quote, single_quote] @ [newline] @ ''    ''"
    by (simp add: fts_count_query_def)
  ultimately show ?thesis by blast
qed

section \<open>Missing tables\<close>

lemma list_tools_without_tools:
  "tools db = None \<Longrightarrow> list_tools db = \<lparr>tl_items = [], tl_total = 0\<rparr>"
  by (simp add: list_tools_def table_names_def)

lemma search_like_without_responses:
  "responses db = None \<Longrightarrow>
   search_like db q limit offset = Inl (OperationalError ''no such table: responses'')"
  by (simp add: search_like_def execute_on_def bind_result_def)

text \<open>
  Claim C6 asks that a missing table is never an error. \<open>list_tools\<close> keeps to it:
  without a \<open>tools\<close> table it returns no items and total 0. \<open>search\<close> does not: it
  looks for \<open>responses_fts\<close> only, and on a database without a \<open>responses\<close> table the
  \<open>LIKE\<close> search it falls back to fails with SQLite's \<open>no such table\<close> error. The
  HTML page for the same search looks for \<open>responses\<close> first and shows no results.
\<close>

theorem search_without_responses_table:
  "search engine bare_database ''hello'' 50 0 = Inl (OperationalError ''no such table: responses'')
   \<and> search_page engine bare_database (Some ''hello'') 1 50 =
       Inr \<lparr>sp_query = ''hello'', sp_results = [], sp_total = 0, sp_page = 1, sp_limit = 50,
            sp_total_pages = 0\<rparr>
   \<and> list_tools bare_database = \<lparr>tl_items = [], tl_total = 0\<rparr>"
proof -
  have r: "responses bare_database = None" and t: "tools bare_database = None"
    by (simp_all add: bare_database_def)
  have f: "''responses_fts'' \<notin> set (table_names bare_database)"
    and n: "''responses'' \<notin> set (table_names bare_database)"
    by (simp_all add: bare_database_def table_names_def)
  have api: "search engine bare_database ''hello'' 50 0
               = Inl (OperationalError ''no such table: responses'')"
    using f by (simp add: search_def search_like_without_responses [OF r])
  have view: "search_page engine bare_database (Some ''hello'') 1 50 =
       Inr \<lparr>sp_query = ''hello'', sp_results = [], sp_total = 0, sp_page = 1, sp_limit = 50,
            sp_total_pages = 0\<rparr>"
    using n by (simp add: search_page_def bind_result_def)
  from api view list_tools_without_tools [OF t] show ?thesis by simp
qed

section \<open>The fallback search and the backslash\<close>

text \<open>
  Apart from the backslash the pattern does what is asked of it. For ASCII text and a
  query without a backslash, a column is \<open>LIKE\<close> the pattern exactly when it contains
  the query, letter case ignored.
\<close>

lemma like_match_percent:
  "like_match esc (CHR ''%'' # ps) s \<longleftrightarrow> (\<exists>k\<le>length s. like_match esc ps (drop k s))"
proof (induction s)
  case Nil
  show ?case by simp
next
  case (Cons c t)
  have "like_match esc (CHR ''%'' # ps) (c # t)
          \<longleftrightarrow> like_match esc ps (c # t) \<or> like_match esc (CHR ''%'' # ps) t"
    by simp
  also have "\<dots> \<longleftrightarrow> like_match esc ps (c # t) \<or> (\<exists>k\<le>length t. like_match esc ps (drop k t))"
    using Cons.IH by simp
  also have "\<dots> \<longleftrightarrow> (\<exists>k\<le>length (c # t). like_match esc ps (drop k (c # t)))"
  proof
    assume "like_match esc ps (c # t) \<or> (\<exists>k\<le>length t. like_match esc ps (drop k t))"
    then show "\<exists>k\<le>length (c # t). like_match esc ps (drop k (c # t))"
    proof
      assume "like_match esc ps (c # t)"
      then have "like_match esc ps (drop 0 (c # t))" by simp
      then show ?thesis by blast
    next
      assume "\<exists>k\<le>length t. like_match esc ps (drop k t)"
      then obtain k where "k \<le> length t" "like_match esc ps (drop k t)" by blast
      then have "Suc k \<le> length (c # t)" "like_match esc ps (drop (Suc k) (c # t))" by simp_all
      then show ?thesis by blast
    qed
  next
    assume "\<exists>k\<le>length (c # t). like_match esc ps (drop k (c # t))"
    then obtain k where k: "k \<le> length (c # t)" "like_match esc ps (drop k (c # t))" by blast
    show "like_match esc ps (c # t) \<or> (\<exists>k\<le>length t. like_match esc ps (drop k t))"
    proof (cases k)
      case 0
      with k show ?thesis by simp
    next
      case (Suc j)
      with k have "j \<le> length t" "like_match esc ps (drop j t)" by simp_all
      then show ?thesis by blast
    qed
  qed
  finally show ?case .
qed

lemma like_match_only_percent: "like_match esc ''%'' s"
proof -
  have "like_match esc [] (drop (length s) s)" by simp
  then show ?thesis using like_match_percent [of esc "[]" s] by blast
qed

lemma like_match_escaped:
  assumes "esc \<notin> set q" and "esc \<noteq> CHR ''%''" and "esc \<noteq> CHR ''_''"
  shows "like_match esc (escaped esc q @ rest) s \<longleftrightarrow>
           length q \<le> length s \<and> list_all2 same_nocase q (take (length q) s)
           \<and> like_match esc rest (drop (length q) s)"
  using assms(1)
proof (induction q arbitrary: s)
  case Nil
  show ?case by (simp add: escaped_def)
next
  case (Cons c q)
  from Cons.prems have ne: "c \<noteq> esc" and rest: "esc \<notin> set q" by auto
  have IH: "like_match esc (escaped esc q @ rest) t \<longleftrightarrow>
           length q \<le> length t \<and> list_all2 same_nocase q (take (length q) t)
           \<and> like_match esc rest (drop (length q) t)" for t
    using Cons.IH [OF rest] .
  show ?case
  proof (cases s)
    case Nil
    then show ?thesis
      using assms(2,3) ne by (cases "escaped esc q @ rest") (auto simp: escaped_def)
  next
    case (Cons d t)
    show ?thesis
    proof (cases "c = CHR ''%'' \<or> c = CHR ''_''")
      case True
      then have "escaped esc (c # q) @ rest = esc # c # (escaped esc q @ rest)"
        by (auto simp: escaped_def)
      then show ?thesis
        using assms(2,3) IH [of t] Cons by auto
    next
      case False
      then have "escaped esc (c # q) @ rest = c # (escaped esc q @ rest)"
        by (simp add: escaped_def)
      then show ?thesis
        using False ne IH [of t] Cons by auto
    qed
  qed
qed

lemma like_pattern_of_escaped:
  "like_pattern_of q = CHR ''%'' # escaped backslash q @ ''%''"
proof -
  have "replace_char CHR ''_'' [backslash, CHR ''_'']
          (replace_char CHR ''%'' [backslash, CHR ''%''] q) = escaped backslash q"
    by (induction q) (simp_all add: replace_char_def escaped_def backslash_def)
  then show ?thesis by (simp add: like_pattern_of_def)
qed

lemma like_match_pattern:
  assumes "backslash \<notin> set q"
  shows "like_match backslash (like_pattern_of q) s \<longleftrightarrow>
           (\<exists>k. k + length q \<le> length s \<and> list_all2 same_nocase q (take (length q) (drop k s)))"
proof -
  have b: "backslash \<noteq> CHR ''%''" "backslash \<noteq> CHR ''_''"
    by (simp_all add: backslash_def)
  have step: "like_match backslash (escaped backslash q @ ''%'') t \<longleftrightarrow>
                length q \<le> length t \<and> list_all2 same_nocase q (take (length q) t)" for t
    unfolding like_match_escaped [OF assms b, of "''%''" t]
    using like_match_only_percent [of backslash "drop (length q) t"] by blast
  have "like_match backslash (like_pattern_of q) s \<longleftrightarrow>
          (\<exists>k\<le>length s. like_match backslash (escaped backslash q @ ''%'') (drop k s))"
    unfolding like_pattern_of_escaped by (rule like_match_percent)
  also have "\<dots> \<longleftrightarrow> (\<exists>k\<le>length s. length q \<le> length (drop k s)
                  \<and> list_all2 same_nocase q (take (length q) (drop k s)))"
    unfolding step ..
  also have "\<dots> \<longleftrightarrow> (\<exists>k. k + length q \<le> length s
                  \<and> list_all2 same_nocase q (take (length q) (drop k s)))"
    by (intro iff_exI) auto
  finally show ?thesis .
qed

lemma lower_basic_code_points:
  "lower_basic (code_points s) =
     map (\<lambda>c. if (65 \<le> (of_char c :: nat) \<and> (of_char c :: nat) \<le> 90)
                  \<or> (192 \<le> (of_char c :: nat) \<and> (of_char c :: nat) \<le> 222
                      \<and> (of_char c :: nat) \<noteq> 215)
               then of_char c + 32 else of_char c) s"
proof (induction s)
  case Nil
  show ?case by (simp add: lower_basic_def code_points_def)
next
  case (Cons c s)
  have "(of_char c :: nat) < 256"
    using of_char_mod_256 [of c, where ?'a = nat] by (metis mod_less_divisor zero_less_numeral)
  then have "(of_char c :: nat) \<noteq> 304" by linarith
  with Cons show ?case
    by (simp add: lower_basic_def code_points_def lower_code_point_def)
qed

lemma same_nocase_lowered:
  assumes "is_ascii a" and "is_ascii b"
  shows "same_nocase a b \<longleftrightarrow>
     (if 65 \<le> (of_char a :: nat) \<and> (of_char a :: nat) \<le> 90 then of_char a + 32 else of_char a)
   = (if 65 \<le> (of_char b :: nat) \<and> (of_char b :: nat) \<le> 90 then of_char b + 32 else (of_char b :: nat))"
proof -
  have low: "of_char (ascii_lower c) =
      (if 65 \<le> (of_char c :: nat) \<and> (of_char c :: nat) \<le> 90 then of_char c + 32 else (of_char c :: nat))"
    for c
    by (simp add: ascii_lower_def Let_def)
  have "same_nocase a b \<longleftrightarrow> ascii_lower a = ascii_lower b"
    using assms by (auto simp: same_nocase_def)
  also have "\<dots> \<longleftrightarrow> (of_char (ascii_lower a) :: nat) = of_char (ascii_lower b)"
    by simp
  finally show ?thesis unfolding low .
qed

lemma same_nocase_list_lowered:
  assumes "\<forall>c\<in>set q. is_ascii c" and "\<forall>c\<in>set w. is_ascii c"
  shows "list_all2 same_nocase q w \<longleftrightarrow>
           lower_basic (code_points q) = lower_basic (code_points w)"
  using assms
proof (induction q arbitrary: w)
  case Nil
  show ?case by (simp add: lower_basic_code_points)
next
  case (Cons c q)
  show ?case
  proof (cases w)
    case Nil
    then show ?thesis by (simp add: lower_basic_code_points)
  next
    case (Cons d t)
    with Cons.prems have cd: "is_ascii c" "is_ascii d"
      and rest: "\<forall>c\<in>set q. is_ascii c" "\<forall>c\<in>set t. is_ascii c" by simp_all
    have tail: "list_all2 same_nocase q t \<longleftrightarrow>
                  lower_basic (code_points q) = lower_basic (code_points t)"
      using Cons.IH [OF rest] .
    have c: "\<not> 192 \<le> (of_char c :: nat)" and d: "\<not> 192 \<le> (of_char d :: nat)"
      using cd by (simp_all add: is_ascii_def)
    show ?thesis
      using same_nocase_lowered [OF cd] tail c d Cons
      by (simp add: lower_basic_code_points)
  qed
qed

lemma like_search_selects_substring:
  assumes "backslash \<notin> set q" and "\<forall>c\<in>set s. is_ascii c" and "\<forall>c\<in>set q. is_ascii c"
  shows "sql_like (Some s) (like_pattern_of q) \<longleftrightarrow> contains_nocase (Some s) q"
proof -
  have win: "\<forall>c\<in>set (take (length q) (drop k s)). is_ascii c" for k
    using assms(2) by (meson in_set_dropD in_set_takeD)
  have "sql_like (Some s) (like_pattern_of q) \<longleftrightarrow>
      (\<exists>k. k + length q \<le> length s \<and> list_all2 same_nocase q (take (length q) (drop k s)))"
    using like_match_pattern [OF assms(1)] by (simp add: sql_like_def)
  also have "\<dots> \<longleftrightarrow> (\<exists>k. k + length q \<le> length s
        \<and> lower_basic (code_points q) = lower_basic (code_points (take (length q) (drop k s))))"
    using same_nocase_list_lowered [OF assms(3) win] by simp
  also have "\<dots> \<longleftrightarrow> (\<exists>k. occurs_at (lower_basic (code_points s)) (lower_basic (code_points q)) k)"
    by (auto simp: occurs_at_def lower_basic_code_points take_map drop_map)
  also have "\<dots> \<longleftrightarrow> contains_nocase (Some s) q"
    by (simp add: contains_nocase_def str_find_found)
  finally show ?thesis .
qed

text \<open>
  Claim C8 asks that the \<open>LIKE\<close> search finds exactly the rows that contain the query.
  \<open>_search_like\<close> escapes \<open>%\<close> and \<open>_\<close> with a backslash but leaves a backslash in the
  query as it is. For the query that is one backslash the pattern is \<open>%\<close>, backslash,
  \<open>%\<close>, which matches the texts that end in a percent sign: the search returns the row
  whose prompt is \<open>100%\<close>, and not the row whose prompt contains a backslash.
\<close>

theorem search_like_backslash_query:
  "search_like backslash_database [backslash] 50 0 =
     Inr \<lparr>sr_query = [backslash], sr_results = [SearchResult [backslash] percent_response],
          sr_total = 1, sr_limit = 50, sr_offset = 0\<rparr>
   \<and> contains_nocase (r_prompt path_response) [backslash]
   \<and> \<not> contains_nocase (r_prompt percent_response) [backslash]
   \<and> \<not> contains_nocase (r_response percent_response) [backslash]"
  by code_simp

end
